theory Spec2Isabelle
  imports Complex_Main "HOL-Library.Code_Target_Numeral"
begin

section \<open>JavaScript values\<close>

text \<open>
  The dashboard script (class \<open>TBMDataMonitor\<close>) works on values parsed from a JSON reply
  and on values it builds itself. A number is a binary64 value: \<open>NaN\<close>, the two
  infinities, or a finite value, taken as the real number it denotes. Sums, products and
  quotients are rounded to the nearest binary64 value (\<open>round64\<close> below), as the engine
  does. The sign of zero is not kept: the script never divides by a zero other than the
  result of \<open>Math.abs\<close>, and no text it writes tells the two zeros apart.
\<close>

datatype jsnum = NaN | PosInf | NegInf | Fin real

text \<open>
  An object is the list of its own properties (looked up with \<open>map_of\<close>, keys taken to be
  distinct); an array is the list of its elements.
\<close>

datatype jsval =
    JUndefined
  | JNull
  | JBool bool
  | JNum jsnum
  | JStr string
  | JArr "jsval list"
  | JObj "(string \<times> jsval) list"

datatype error = TypeError | RangeError | HttpError | SyntaxError | NetworkFailure

text \<open>
  Two conversions of the engine depend on the digits of the binary64 representation and
  are taken as given: the number a string converts to, and the text of a number of
  magnitude at least \<open>10^21\<close> (where \<open>toFixed\<close> hands over to \<open>Number.prototype.toString\<close>).
\<close>

record engine =
  stringToNumber :: "string \<Rightarrow> jsnum"
  numberToString :: "real \<Rightarrow> string"

definition bindE :: "error + 'a \<Rightarrow> ('a \<Rightarrow> error + 'b) \<Rightarrow> error + 'b" where
  "bindE m f = (case m of Inl e \<Rightarrow> Inl e | Inr x \<Rightarrow> f x)"

subsection \<open>Property access, truthiness, typeof\<close>

text \<open>
  \<open>v.key\<close> for the property names the script reads (\<open>features\<close>, \<open>current_value\<close>,
  \<open>predicted\<close>, \<open>value\<close> and so on, none of which any prototype defines): a TypeError on
  \<open>null\<close> and \<open>undefined\<close>, the own property of an object, \<open>undefined\<close> otherwise.
\<close>

definition getProp :: "jsval \<Rightarrow> string \<Rightarrow> error + jsval" where
  "getProp v key =
     (case v of
        JUndefined \<Rightarrow> Inl TypeError
      | JNull \<Rightarrow> Inl TypeError
      | JObj kvs \<Rightarrow> (case map_of kvs key of None \<Rightarrow> Inr JUndefined | Some x \<Rightarrow> Inr x)
      | _ \<Rightarrow> Inr JUndefined)"

definition digitChar :: "nat \<Rightarrow> char" where
  "digitChar d = ''0123456789'' ! d"

fun decimal :: "nat \<Rightarrow> string" where
  "decimal n = (if n < 10 then [digitChar n] else decimal (n div 10) @ [digitChar (n mod 10)])"

declare decimal.simps [simp del]

text \<open>
  \<open>v[i]\<close> for an index \<open>i\<close>: an array element, a one-character string, the property of an
  object whose key is the index in decimal, \<open>undefined\<close> otherwise; a TypeError on \<open>null\<close>
  and \<open>undefined\<close>.
\<close>

definition getIndex :: "jsval \<Rightarrow> nat \<Rightarrow> error + jsval" where
  "getIndex v i =
     (case v of
        JUndefined \<Rightarrow> Inl TypeError
      | JNull \<Rightarrow> Inl TypeError
      | JArr xs \<Rightarrow> (if i < length xs then Inr (xs ! i) else Inr JUndefined)
      | JStr s \<Rightarrow> (if i < length s then Inr (JStr [s ! i]) else Inr JUndefined)
      | JObj kvs \<Rightarrow> (case map_of kvs (decimal i) of None \<Rightarrow> Inr JUndefined | Some x \<Rightarrow> Inr x)
      | _ \<Rightarrow> Inr JUndefined)"

definition truthy :: "jsval \<Rightarrow> bool" where
  "truthy v =
     (case v of
        JUndefined \<Rightarrow> False
      | JNull \<Rightarrow> False
      | JBool b \<Rightarrow> b
      | JNum n \<Rightarrow> n \<noteq> NaN \<and> n \<noteq> Fin 0
      | JStr s \<Rightarrow> s \<noteq> []
      | _ \<Rightarrow> True)"

text \<open>\<open>a || b\<close>\<close>

definition js_or :: "jsval \<Rightarrow> jsval \<Rightarrow> jsval" where
  "js_or a b = (if truthy a then a else b)"

definition typeof :: "jsval \<Rightarrow> string" where
  "typeof v =
     (case v of
        JUndefined \<Rightarrow> ''undefined''
      | JNull \<Rightarrow> ''object''
      | JBool _ \<Rightarrow> ''boolean''
      | JNum _ \<Rightarrow> ''number''
      | JStr _ \<Rightarrow> ''string''
      | JArr _ \<Rightarrow> ''object''
      | JObj _ \<Rightarrow> ''object'')"

text \<open>\<open>v === null || v === undefined\<close>\<close>

definition absent :: "jsval \<Rightarrow> bool" where
  "absent v = (v = JNull \<or> v = JUndefined)"

subsection \<open>Numbers\<close>

definition isFiniteNum :: "jsnum \<Rightarrow> bool" where
  "isFiniteNum n = (case n of Fin _ \<Rightarrow> True | _ \<Rightarrow> False)"

definition js_neg :: "jsnum \<Rightarrow> jsnum" where
  "js_neg n = (case n of NaN \<Rightarrow> NaN | PosInf \<Rightarrow> NegInf | NegInf \<Rightarrow> PosInf | Fin x \<Rightarrow> Fin (- x))"

definition js_abs :: "jsnum \<Rightarrow> jsnum" where
  "js_abs n = (case n of NaN \<Rightarrow> NaN | PosInf \<Rightarrow> PosInf | NegInf \<Rightarrow> PosInf | Fin x \<Rightarrow> Fin \<bar>x\<bar>)"

text \<open>
  Rounding to binary64, to nearest with ties to even. For a positive real \<open>a\<close> with
  \<open>2^e \<le> a < 2^(e+1)\<close> the representable values around it are the multiples of
  \<open>2^(e-52)\<close>, and of \<open>2^-1074\<close> below \<open>2^-1022\<close>; a result of \<open>2^1024\<close> or more is an
  infinity. The exponent \<open>e\<close> is read off the number of binary digits of the integer part
  (or, below one, of the integer part of the inverse).
\<close>

fun binaryLength :: "nat \<Rightarrow> nat" where
  "binaryLength n = (if n = 0 then 0 else binaryLength (n div 2) + 1)"

declare binaryLength.simps [simp del]

definition exponent2 :: "real \<Rightarrow> int" where
  "exponent2 a =
     (if a \<ge> 1 then int (binaryLength (nat \<lfloor>a\<rfloor>)) - 1
      else - int (binaryLength (nat (\<lceil>1 / a\<rceil> - 1))))"

definition scale2 :: "real \<Rightarrow> int \<Rightarrow> real" where
  "scale2 x k = (if k \<ge> 0 then x * 2 ^ nat k else x / 2 ^ nat (- k))"

definition roundHalfEven :: "real \<Rightarrow> int" where
  "roundHalfEven y =
     (let f = \<lfloor>y\<rfloor>; d = y - of_int f
      in if d < 1 / 2 then f else if d > 1 / 2 then f + 1 else if even f then f else f + 1)"

definition round64 :: "real \<Rightarrow> jsnum" where
  "round64 x =
     (if x = 0 then Fin 0
      else
        let a = \<bar>x\<bar>;
            e = max (exponent2 a) (- 1022);
            n = roundHalfEven (scale2 a (52 - e));
            r = scale2 (of_int n) (e - 52)
        in if r \<ge> 2 ^ 1024 then (if x < 0 then NegInf else PosInf)
           else Fin (if x < 0 then - r else r))"

fun js_add :: "jsnum \<Rightarrow> jsnum \<Rightarrow> jsnum" where
  "js_add NaN _ = NaN"
| "js_add _ NaN = NaN"
| "js_add PosInf NegInf = NaN"
| "js_add NegInf PosInf = NaN"
| "js_add PosInf _ = PosInf"
| "js_add NegInf _ = NegInf"
| "js_add _ PosInf = PosInf"
| "js_add _ NegInf = NegInf"
| "js_add (Fin a) (Fin b) = round64 (a + b)"

definition js_sub :: "jsnum \<Rightarrow> jsnum \<Rightarrow> jsnum" where
  "js_sub a b = js_add a (js_neg b)"

definition signOf :: "jsnum \<Rightarrow> int" where
  "signOf n = (case n of NaN \<Rightarrow> 0 | PosInf \<Rightarrow> 1 | NegInf \<Rightarrow> - 1
               | Fin x \<Rightarrow> (if x > 0 then 1 else if x < 0 then - 1 else 0))"

definition infOfSign :: "int \<Rightarrow> jsnum" where
  "infOfSign s = (if s > 0 then PosInf else if s < 0 then NegInf else NaN)"

fun js_mul :: "jsnum \<Rightarrow> jsnum \<Rightarrow> jsnum" where
  "js_mul NaN _ = NaN"
| "js_mul _ NaN = NaN"
| "js_mul (Fin a) (Fin b) = round64 (a * b)"
| "js_mul a b = infOfSign (signOf a * signOf b)"

text \<open>
  Division: a finite value over zero is an infinity of the sign of the dividend (the zero
  here is always the result of \<open>Math.abs\<close>, so it is positive), zero over zero is \<open>NaN\<close>.
\<close>

fun js_div :: "jsnum \<Rightarrow> jsnum \<Rightarrow> jsnum" where
  "js_div NaN _ = NaN"
| "js_div _ NaN = NaN"
| "js_div (Fin a) (Fin b) = (if b = 0 then infOfSign (signOf (Fin a)) else round64 (a / b))"
| "js_div (Fin a) _ = Fin 0"
| "js_div a (Fin b) = (if b < 0 then js_neg a else a)"
| "js_div _ _ = NaN"

fun js_lt :: "jsnum \<Rightarrow> jsnum \<Rightarrow> bool" where
  "js_lt NaN _ = False"
| "js_lt _ NaN = False"
| "js_lt (Fin a) (Fin b) = (a < b)"
| "js_lt NegInf b = (b \<noteq> NegInf)"
| "js_lt a PosInf = (a \<noteq> PosInf)"
| "js_lt _ _ = False"

definition js_gt :: "jsnum \<Rightarrow> jsnum \<Rightarrow> bool" where
  "js_gt a b = js_lt b a"

definition js_ge :: "jsnum \<Rightarrow> jsnum \<Rightarrow> bool" where
  "js_ge a b = (a \<noteq> NaN \<and> b \<noteq> NaN \<and> \<not> js_lt a b)"

subsection \<open>Conversion to a primitive\<close>

text \<open>
  \<open>ToString\<close> and \<open>ToNumber\<close> of an object go through its \<open>toString\<close>/\<open>valueOf\<close>. For a
  plain object (all the script meets) that throws a TypeError exactly when the object has an own
  property \<open>toString\<close> (which, coming from JSON, is never a function); an array joins the
  texts of its elements, skipping \<open>null\<close> and \<open>undefined\<close>.
\<close>

fun toStringThrows :: "jsval \<Rightarrow> bool" where
  "toStringThrows (JObj kvs) = (map_of kvs ''toString'' \<noteq> None)"
| "toStringThrows (JArr xs) = list_ex toStringThrows xs"
| "toStringThrows _ = False"

fun toNumber :: "engine \<Rightarrow> jsval \<Rightarrow> jsnum" where
  "toNumber rt JUndefined = NaN"
| "toNumber rt JNull = Fin 0"
| "toNumber rt (JBool b) = (if b then Fin 1 else Fin 0)"
| "toNumber rt (JNum n) = n"
| "toNumber rt (JStr s) = stringToNumber rt s"
| "toNumber rt (JObj kvs) = NaN"
| "toNumber rt (JArr []) = Fin 0"
| "toNumber rt (JArr [x]) =
     (case x of
        JUndefined \<Rightarrow> Fin 0
      | JNull \<Rightarrow> Fin 0
      | JBool b \<Rightarrow> NaN
      | JNum n \<Rightarrow> n
      | JStr s \<Rightarrow> stringToNumber rt s
      | JArr ys \<Rightarrow> toNumber rt (JArr ys)
      | JObj kvs \<Rightarrow> NaN)"
| "toNumber rt (JArr (x # y # zs)) = NaN"

text \<open>\<open>a - b\<close> on arbitrary values: both operands are converted, left first.\<close>

definition js_minus :: "engine \<Rightarrow> jsval \<Rightarrow> jsval \<Rightarrow> error + jsnum" where
  "js_minus rt a b =
     (if toStringThrows a \<or> toStringThrows b then Inl TypeError
      else Inr (js_sub (toNumber rt a) (toNumber rt b)))"

subsection \<open>\<open>toFixed\<close> and \<open>toExponential\<close>\<close>

text \<open>The integer nearest to a non-negative real, the larger one on a tie.\<close>

definition roundHalfUp :: "real \<Rightarrow> nat" where
  "roundHalfUp x = nat \<lfloor>x + 1 / 2\<rfloor>"

definition fixedDigits :: "nat \<Rightarrow> real \<Rightarrow> string" where
  "fixedDigits f x =
     (let n = roundHalfUp (\<bar>x\<bar> * 10 ^ f);
          m = decimal n;
          m = (if f \<noteq> 0 \<and> length m \<le> f then replicate (f + 1 - length m) CHR ''0'' @ m else m);
          k = length m;
          m = (if f \<noteq> 0 then take (k - f) m @ ''.'' @ drop (k - f) m else m)
      in (if x < 0 then ''-'' else '''') @ m)"

definition toFixed :: "engine \<Rightarrow> nat \<Rightarrow> jsnum \<Rightarrow> error + string" where
  "toFixed rt f n =
     (if f > 100 then Inl RangeError
      else case n of
        NaN \<Rightarrow> Inr ''NaN''
      | PosInf \<Rightarrow> Inr ''Infinity''
      | NegInf \<Rightarrow> Inr ''-Infinity''
      | Fin x \<Rightarrow> (if \<bar>x\<bar> \<ge> 10 ^ 21 then Inr (numberToString rt x) else Inr (fixedDigits f x)))"

text \<open>
  The decimal exponent of a positive real, \<open>\<lfloor>log\<^sub>1\<^sub>0 x\<rfloor>\<close>, from the number of digits of
  its integer part (or, below one, of the integer part of its inverse).
\<close>

definition exponent10 :: "real \<Rightarrow> int" where
  "exponent10 x =
     (if x \<ge> 1 then int (length (decimal (nat \<lfloor>x\<rfloor>))) - 1
      else - int (length (decimal (nat (\<lceil>1 / x\<rceil> - 1)))))"

definition scale10 :: "real \<Rightarrow> int \<Rightarrow> real" where
  "scale10 x k = (if k \<ge> 0 then x * 10 ^ nat k else x / 10 ^ nat (- k))"

definition exponentialDigits :: "nat \<Rightarrow> real \<Rightarrow> string" where
  "exponentialDigits f x =
     (let a = \<bar>x\<bar>;
          e0 = (if a = 0 then 0 else exponent10 a);
          n0 = roundHalfUp (scale10 a (int f - e0));
          e = (if n0 \<ge> 10 ^ (f + 1) then e0 + 1 else e0);
          n = (if n0 \<ge> 10 ^ (f + 1) then 10 ^ f else n0);
          m = (if a = 0 then replicate (f + 1) CHR ''0'' else decimal n);
          m = (if f \<noteq> 0 then take 1 m @ ''.'' @ drop 1 m else m)
      in (if x < 0 then ''-'' else '''') @ m @ ''e'' @ (if e < 0 then ''-'' else ''+'')
           @ decimal (nat \<bar>e\<bar>))"

definition toExponential :: "nat \<Rightarrow> jsnum \<Rightarrow> error + string" where
  "toExponential f n =
     (case n of
        NaN \<Rightarrow> Inr ''NaN''
      | PosInf \<Rightarrow> Inr ''Infinity''
      | NegInf \<Rightarrow> Inr ''-Infinity''
      | Fin x \<Rightarrow> (if f > 100 then Inl RangeError else Inr (exponentialDigits f x)))"

section \<open>The monitor's pure helpers\<close>

text \<open>\<open>determineDataStatus(value)\<close>, the same in both revisions of the script.\<close>

definition determineDataStatus :: "jsval \<Rightarrow> error + string" where
  "determineDataStatus v =
     (if v = JNull \<or> v = JUndefined then Inr ''missing''
      else bindE (if typeof v = ''object''
                  then bindE (getProp v ''predicted'') (\<lambda>p. Inr (p = JBool True))
                  else Inr False) (\<lambda>isPredicted.
        if isPredicted then Inr ''predicted''
        else if typeof v = ''number'' \<and> v \<noteq> JNum NaN then Inr ''valid''
        else bindE (if typeof v = ''object''
                    then bindE (getProp v ''value'') (\<lambda>x. Inr (x \<noteq> JUndefined))
                    else Inr False) (\<lambda>hasValue.
          if hasValue then Inr ''valid'' else Inr ''error'')))"

text \<open>\<open>formatValue(value)\<close> of the revision with the change column.\<close>

definition formatValue :: "engine \<Rightarrow> jsval \<Rightarrow> error + string" where
  "formatValue rt v =
     (case v of
        JNum n \<Rightarrow>
          (if n = NaN \<or> \<not> isFiniteNum n then Inr ''--''
           else if js_gt (js_abs n) (Fin (10 ^ 10)) then toExponential 2 n
           else if js_ge n (Fin 1000) then toFixed rt 0 n
           else if js_ge n (Fin 1) then toFixed rt 2 n
           else toFixed rt 4 n)
      | _ \<Rightarrow> Inr ''--'')"

section \<open>The feature catalogue\<close>

text \<open>
  \<open>FEATURE_CONFIG\<close> of \<open>feature_config.js\<close>: 31 descriptors. Only the id and the unit are
  read by the code below; the display name, the transmission name and the status tag of
  each entry are left out. The unit \<open>kN\<cdot>m\<close> is written as its UTF-8 bytes.
\<close>

record feature =
  fid :: nat
  unit :: string

definition kNm :: string where
  "kNm = ''kN'' @ [CHR 0xC2, CHR 0xB7] @ ''m''"

definition FEATURE_CONFIG :: "feature list" where
  "FEATURE_CONFIG =
     [\<lparr>fid = 1, unit = ''mm/rpm''\<rparr>,
      \<lparr>fid = 2, unit = ''MPa''\<rparr>, \<lparr>fid = 3, unit = ''MPa''\<rparr>,
      \<lparr>fid = 4, unit = ''MPa''\<rparr>, \<lparr>fid = 5, unit = ''MPa''\<rparr>,
      \<lparr>fid = 6, unit = ''MPa''\<rparr>, \<lparr>fid = 7, unit = ''MPa''\<rparr>,
      \<lparr>fid = 8, unit = ''MPa''\<rparr>, \<lparr>fid = 9, unit = ''MPa''\<rparr>,
      \<lparr>fid = 10, unit = ''mm/min''\<rparr>, \<lparr>fid = 11, unit = ''mm/min''\<rparr>,
      \<lparr>fid = 12, unit = ''mm/min''\<rparr>, \<lparr>fid = 13, unit = ''mm/min''\<rparr>,
      \<lparr>fid = 14, unit = ''kN''\<rparr>,
      \<lparr>fid = 15, unit = ''mm''\<rparr>, \<lparr>fid = 16, unit = ''mm''\<rparr>,
      \<lparr>fid = 17, unit = ''mm''\<rparr>, \<lparr>fid = 18, unit = ''mm''\<rparr>,
      \<lparr>fid = 19, unit = ''mm/min''\<rparr>,
      \<lparr>fid = 20, unit = ''r/min''\<rparr>,
      \<lparr>fid = 21, unit = kNm\<rparr>,
      \<lparr>fid = 22, unit = ''%''\<rparr>, \<lparr>fid = 23, unit = ''%''\<rparr>,
      \<lparr>fid = 24, unit = ''%''\<rparr>, \<lparr>fid = 25, unit = ''%''\<rparr>,
      \<lparr>fid = 26, unit = ''%''\<rparr>, \<lparr>fid = 27, unit = ''%''\<rparr>,
      \<lparr>fid = 28, unit = ''%''\<rparr>, \<lparr>fid = 29, unit = ''%''\<rparr>,
      \<lparr>fid = 30, unit = ''%''\<rparr>, \<lparr>fid = 31, unit = ''%''\<rparr>]"

section \<open>The monitor and the page it writes\<close>

text \<open>
  The fields of a \<open>TBMDataMonitor\<close> and the elements of the page that its methods write.
  \<open>lastValues\<close> and \<open>lastPredictionValues\<close> are objects keyed by feature id; reading a key
  that was never written gives \<open>undefined\<close>, so each is a function into values with
  \<open>JUndefined\<close> for the keys not written. \<open>updateInterval\<close> is \<open>True\<close> while it holds a
  timer handle and \<open>False\<close> while it is \<open>null\<close>. The four cells of a table row are indexed
  by feature id. Of the status line only the class of the dot is kept; the Chinese labels
  and the clock texts (\<open>statusText\<close>, \<open>lastUpdate\<close>, \<open>currentTime\<close>, the pause button, the
  label of \<open>machineStatus\<close>) and the console output are not modelled, and \<open>startTime\<close> is
  never read. Every element that the script looks up by id is taken to be on the page, as
  \<open>renderDataTable\<close> puts the rows there before the first request leaves.
\<close>

record cell =
  textContent :: string
  className :: string

record monitor =
  isRunning :: bool
  updateInterval :: bool
  lastData :: jsval
  paused :: bool
  lastValues :: "nat \<Rightarrow> jsval"
  lastPredictionValues :: "nat \<Rightarrow> jsval"
  tPredictionCell :: "nat \<Rightarrow> cell"
  valueCell :: "nat \<Rightarrow> cell"
  changeCell :: "nat \<Rightarrow> cell"
  predictionCell :: "nat \<Rightarrow> cell"
  validCountEl :: nat
  missingCountEl :: nat
  machineStatus :: string
  statusDot :: string
  loadingOverlay :: bool

text \<open>
  A method that may throw after it has written part of the state returns the exception
  (if any) together with the state reached.
\<close>

type_synonym result = "error option \<times> monitor"

definition withE :: "error + 'a \<Rightarrow> monitor \<Rightarrow> ('a \<Rightarrow> result) \<Rightarrow> result" where
  "withE m st f = (case m of Inl e \<Rightarrow> (Some e, st) | Inr x \<Rightarrow> f x)"

definition thenDo :: "result \<Rightarrow> (monitor \<Rightarrow> result) \<Rightarrow> result" where
  "thenDo r f = (case r of (Some e, st) \<Rightarrow> (Some e, st) | (None, st) \<Rightarrow> f st)"

text \<open>The marker of the next-step cell while the buffer fills, as its UTF-8 bytes.\<close>

definition collectingText :: string where
  "collectingText =
     [CHR 0xE6, CHR 0x94, CHR 0xB6, CHR 0xE9, CHR 0x9B, CHR 0x86, CHR 0xE6, CHR 0x95, CHR 0xB0,
      CHR 0xE6, CHR 0x8D, CHR 0xAE, CHR 0xE4, CHR 0xB8, CHR 0xAD] @ ''...''"

text \<open>
  \<open>updateChangeValueWithoutSaving(featureId, currentValue, changeCell)\<close>. The debug line
  for the first three features interpolates both values into a template string, which
  throws where their conversion to a string does. The literal \<open>0.0001\<close> is the binary64
  value nearest to it.
\<close>

definition updateChangeValueWithoutSaving :: "engine \<Rightarrow> monitor \<Rightarrow> nat \<Rightarrow> jsval \<Rightarrow> result" where
  "updateChangeValueWithoutSaving rt st featureId currentValue =
     (if currentValue \<noteq> JNull \<and> currentValue \<noteq> JUndefined then
        (let lastValue = lastValues st featureId in
         if featureId \<le> 3 \<and> (toStringThrows currentValue \<or> toStringThrows lastValue)
         then (Some TypeError, st)
         else if lastValue \<noteq> JUndefined \<and> lastValue \<noteq> JNull then
           withE (js_minus rt currentValue lastValue) st (\<lambda>change.
             let changePercent = js_mul (js_div change (js_abs (toNumber rt lastValue))) (Fin 100) in
             if js_lt (js_abs change) (round64 (1 / 10000)) then
               (None, st\<lparr>changeCell := (changeCell st)(featureId :=
                  \<lparr>textContent = ''0'', className = ''change-value no-change''\<rparr>)\<rparr>)
             else if js_gt change (Fin 0) then
               withE (formatValue rt (JNum change)) st (\<lambda>a.
               withE (toFixed rt 1 changePercent) st (\<lambda>b.
                 (None, st\<lparr>changeCell := (changeCell st)(featureId :=
                    \<lparr>textContent = ''+'' @ a @ '' (+'' @ b @ ''%)'',
                     className = ''change-value increase''\<rparr>)\<rparr>)))
             else
               withE (formatValue rt (JNum change)) st (\<lambda>a.
               withE (toFixed rt 1 changePercent) st (\<lambda>b.
                 (None, st\<lparr>changeCell := (changeCell st)(featureId :=
                    \<lparr>textContent = a @ '' ('' @ b @ ''%)'',
                     className = ''change-value decrease''\<rparr>)\<rparr>))))
         else
           (None, st\<lparr>changeCell := (changeCell st)(featureId :=
              \<lparr>textContent = ''--'', className = ''change-value no-change''\<rparr>)\<rparr>))
      else
        (None, st\<lparr>changeCell := (changeCell st)(featureId :=
           \<lparr>textContent = ''--'', className = ''change-value no-change''\<rparr>)\<rparr>))"

text \<open>
  \<open>updateFeatureDisplayWithoutSaving(featureId, currentValue, currentStatus, currentSource,
  predictionValue, bufferReady)\<close>.
\<close>

definition updateFeatureDisplayWithoutSaving ::
  "engine \<Rightarrow> monitor \<Rightarrow> nat \<Rightarrow> jsval \<Rightarrow> string \<Rightarrow> jsval \<Rightarrow> jsval \<Rightarrow> jsval \<Rightarrow> result" where
  "updateFeatureDisplayWithoutSaving rt st featureId currentValue currentStatus currentSource
      predictionValue bufferReady =
     thenDo
       (if lastPredictionValues st featureId \<noteq> JUndefined then
          withE (formatValue rt (lastPredictionValues st featureId)) st (\<lambda>t.
            (None, st\<lparr>tPredictionCell := (tPredictionCell st)(featureId :=
               \<lparr>textContent = t, className = ''data-value predicted''\<rparr>)\<rparr>))
        else
          (None, st\<lparr>tPredictionCell := (tPredictionCell st)(featureId :=
             \<lparr>textContent = ''--'', className = ''data-value missing''\<rparr>)\<rparr>))
     (\<lambda>st. thenDo
       (if currentValue \<noteq> JNull \<and> currentValue \<noteq> JUndefined then
          withE (formatValue rt currentValue) st (\<lambda>t.
            (None, st\<lparr>valueCell := (valueCell st)(featureId :=
               \<lparr>textContent = t,
                className =
                  (if currentSource = JStr ''api'' then ''data-value api-data''
                   else if currentSource = JStr ''predicted'' \<or> currentSource = JStr ''simulated''
                     then ''data-value filled-data''
                   else if currentSource = JStr ''cached'' then ''data-value cached-data''
                   else ''data-value '' @ currentStatus)\<rparr>)\<rparr>))
        else
          (None, st\<lparr>valueCell := (valueCell st)(featureId :=
             \<lparr>textContent = ''--'', className = ''data-value missing''\<rparr>)\<rparr>))
     (\<lambda>st. thenDo (updateChangeValueWithoutSaving rt st featureId currentValue)
     (\<lambda>st.
        if predictionValue \<noteq> JNull \<and> predictionValue \<noteq> JUndefined \<and> truthy bufferReady then
          withE (formatValue rt predictionValue) st (\<lambda>t.
            (None, st\<lparr>predictionCell := (predictionCell st)(featureId :=
                         \<lparr>textContent = t, className = ''data-value predicted''\<rparr>),
                       lastPredictionValues := (lastPredictionValues st)(featureId := predictionValue)\<rparr>))
        else if \<not> truthy bufferReady then
          (None, st\<lparr>predictionCell := (predictionCell st)(featureId :=
             \<lparr>textContent = collectingText, className = ''data-value collecting''\<rparr>)\<rparr>)
        else
          (None, st\<lparr>predictionCell := (predictionCell st)(featureId :=
             \<lparr>textContent = ''--'', className = ''data-value missing''\<rparr>)\<rparr>))))"

section \<open>One reconciliation cycle: \<open>updateData\<close>\<close>

text \<open>The three counters that the first loop of \<open>updateData\<close> increments.\<close>

record tally =
  validCount :: nat
  missingCount :: nat
  predictedCount :: nat

text \<open>
  The body of the first \<open>forEach\<close>: read the feature's entry, classify the current value,
  write the row, count the status. Reading a property of a \<open>null\<close> or missing entry throws.
\<close>

definition renderFeature ::
  "engine \<Rightarrow> jsval \<Rightarrow> jsval \<Rightarrow> feature \<Rightarrow> monitor \<times> tally \<Rightarrow> error option \<times> monitor \<times> tally" where
  "renderFeature rt features bufferReady f sc =
     (let st = fst sc; c = snd sc in
      case bindE (getIndex features (fid f - 1)) (\<lambda>featureData.
           bindE (getProp featureData ''current_value'') (\<lambda>currentValue.
           bindE (getProp featureData ''current_source'') (\<lambda>currentSource.
           bindE (getProp featureData ''prediction_value'') (\<lambda>predictionValue.
           bindE (determineDataStatus currentValue) (\<lambda>currentStatus.
             Inr (currentValue, currentSource, predictionValue, currentStatus))))))
      of Inl e \<Rightarrow> (Some e, st, c)
       | Inr (currentValue, currentSource, predictionValue, currentStatus) \<Rightarrow>
           (case updateFeatureDisplayWithoutSaving rt st (fid f) currentValue currentStatus
                   currentSource predictionValue bufferReady
            of (Some e, st') \<Rightarrow> (Some e, st', c)
             | (None, st') \<Rightarrow>
                 (None, st',
                  if currentStatus = ''valid'' then c\<lparr>validCount := validCount c + 1\<rparr>
                  else if currentStatus = ''predicted'' then c\<lparr>predictedCount := predictedCount c + 1\<rparr>
                  else if currentStatus = ''missing'' then c\<lparr>missingCount := missingCount c + 1\<rparr>
                  else c)))"

fun renderPass ::
  "engine \<Rightarrow> jsval \<Rightarrow> jsval \<Rightarrow> feature list \<Rightarrow> monitor \<times> tally \<Rightarrow> error option \<times> monitor \<times> tally" where
  "renderPass rt features bufferReady [] sc = (None, fst sc, snd sc)"
| "renderPass rt features bufferReady (f # fs) sc =
     (case renderFeature rt features bufferReady f sc of
        (Some e, st', c') \<Rightarrow> (Some e, st', c')
      | (None, st', c') \<Rightarrow> renderPass rt features bufferReady fs (st', c'))"

text \<open>The body of the second \<open>forEach\<close>: store the current value unless it is absent.\<close>

definition saveFeature :: "jsval \<Rightarrow> feature \<Rightarrow> monitor \<Rightarrow> result" where
  "saveFeature features f st =
     withE (bindE (getIndex features (fid f - 1)) (\<lambda>featureData.
              getProp featureData ''current_value'')) st (\<lambda>currentValue.
       if currentValue \<noteq> JNull \<and> currentValue \<noteq> JUndefined
       then (None, st\<lparr>lastValues := (lastValues st)(fid f := currentValue)\<rparr>)
       else (None, st))"

fun savePass :: "jsval \<Rightarrow> feature list \<Rightarrow> monitor \<Rightarrow> result" where
  "savePass features [] st = (None, st)"
| "savePass features (f # fs) st = thenDo (saveFeature features f st) (savePass features fs)"

definition updateStats :: "nat \<Rightarrow> nat \<Rightarrow> nat \<Rightarrow> monitor \<Rightarrow> monitor" where
  "updateStats valid missing predicted st = st\<lparr>validCountEl := valid, missingCountEl := missing\<rparr>"

definition updateTBMStatusFromBackend :: "jsval \<Rightarrow> monitor \<Rightarrow> monitor" where
  "updateTBMStatusFromBackend tbmStatus st =
     (if tbmStatus = JStr ''active'' then st\<lparr>machineStatus := ''status-active''\<rparr>
      else st\<lparr>machineStatus := ''status-rest''\<rparr>)"

text \<open>
  \<open>updateStepInfo(stepCount, bufferReady)\<close>. While the buffer fills, the status text
  interpolates \<open>stepCount\<close> into a template string after the class of the dot is written;
  that throws where the conversion of \<open>stepCount\<close> to a string does.
\<close>

definition updateStepInfo :: "jsval \<Rightarrow> jsval \<Rightarrow> monitor \<Rightarrow> result" where
  "updateStepInfo stepCount bufferReady st =
     (if truthy bufferReady then (None, st\<lparr>statusDot := ''status-dot connected''\<rparr>)
      else if toStringThrows stepCount
        then (Some TypeError, st\<lparr>statusDot := ''status-dot connecting''\<rparr>)
      else (None, st\<lparr>statusDot := ''status-dot connecting''\<rparr>))"

text \<open>\<open>updateData(data)\<close> of the revision with the change column and the prediction cells.\<close>

definition updateData :: "engine \<Rightarrow> monitor \<Rightarrow> jsval \<Rightarrow> result" where
  "updateData rt st dat =
     (if \<not> truthy dat then (None, st)
      else withE (getProp dat ''features'') st (\<lambda>features.
        if \<not> truthy features then (None, st)
        else
          withE (getProp dat ''step_count'') st (\<lambda>sc.
          withE (getProp dat ''buffer_ready'') st (\<lambda>br.
            let stepCount = js_or sc (JNum (Fin 0));
                bufferReady = js_or br (JBool False)
            in case renderPass rt features bufferReady FEATURE_CONFIG
                      (st, \<lparr>validCount = 0, missingCount = 0, predictedCount = 0\<rparr>)
               of (Some e, st1, c) \<Rightarrow> (Some e, st1)
                | (None, st1, c) \<Rightarrow>
                    thenDo (savePass features FEATURE_CONFIG st1) (\<lambda>st2.
                      let st3 = updateStats (validCount c) (missingCount c) (predictedCount c) st2
                      in withE (getProp dat ''tbm_status'') st3 (\<lambda>tbmStatus.
                           thenDo (updateStepInfo stepCount bufferReady
                                     (updateTBMStatusFromBackend tbmStatus st3)) (\<lambda>st4.
                             (None, st4\<lparr>lastData := features\<rparr>))))))))"

section \<open>Fetching\<close>

text \<open>
  \<open>generateMockData()\<close>. The draws of \<open>Math.random()\<close> are the values of \<open>rnd\<close> at
  successive positions: one per feature for presence and, for a present feature, one for
  the value and one for the predicted tag.
\<close>

definition mockRange :: "string \<Rightarrow> real" where
  "mockRange u =
     (if u = ''MPa'' then 20
      else if u = ''mm/min'' then 100
      else if u = ''mm'' then 1000
      else if u = ''kN'' then 10000
      else if u = ''r/min'' then 5
      else if u = kNm then 1000
      else if u = ''%'' then 100
      else 100)"

fun mockFeatures :: "(nat \<Rightarrow> real) \<Rightarrow> nat \<Rightarrow> feature list \<Rightarrow> jsval list" where
  "mockFeatures rnd k [] = []"
| "mockFeatures rnd k (f # fs) =
     (if js_lt (Fin (rnd k)) (round64 (4 / 5)) then
        (let v = JNum (js_mul (Fin (rnd (k + 1))) (Fin (mockRange (unit f)))) in
         (if js_lt (Fin (rnd (k + 2))) (round64 (1 / 10))
          then JObj [(''value'', v), (''predicted'', JBool True)] else v)
           # mockFeatures rnd (k + 3) fs)
      else JNull # mockFeatures rnd (k + 1) fs)"

definition generateMockData :: "(nat \<Rightarrow> real) \<Rightarrow> jsval" where
  "generateMockData rnd = JObj [(''features'', JArr (mockFeatures rnd 0 FEATURE_CONFIG))]"

text \<open>
  What a request settles to: the network fails, or a reply arrives, with its \<open>ok\<close> flag
  and its body parsed as JSON (\<open>None\<close> when the body does not parse).
\<close>

datatype response = NetworkDown | Reply bool "jsval option"

definition updateStatus :: "string \<Rightarrow> monitor \<Rightarrow> monitor" where
  "updateStatus status st = st\<lparr>statusDot := ''status-dot '' @ status\<rparr>"

definition showLoading :: "monitor \<Rightarrow> monitor" where
  "showLoading st = st\<lparr>loadingOverlay := True\<rparr>"

definition hideLoading :: "monitor \<Rightarrow> monitor" where
  "hideLoading st = st\<lparr>loadingOverlay := False\<rparr>"

text \<open>
  \<open>fetchData()\<close> from the point where its request settles: the \<open>try\<close> block, and the
  \<open>catch\<close> block that takes over with the state the \<open>try\<close> block reached. An exception
  thrown inside the \<open>catch\<close> block leaves the method. The two \<open>await\<close>s (for the reply and
  for its body) are one settling: between them the method reads and writes no field of the
  monitor.
\<close>

definition fetchData_try :: "engine \<Rightarrow> response \<Rightarrow> monitor \<Rightarrow> result" where
  "fetchData_try rt resp st =
     (case resp of
        NetworkDown \<Rightarrow> (Some NetworkFailure, st)
      | Reply ok body \<Rightarrow>
          if \<not> ok then (Some HttpError, st)
          else (case body of
                  None \<Rightarrow> (Some SyntaxError, st)
                | Some dat \<Rightarrow>
                    thenDo (updateData rt st dat) (\<lambda>st1.
                      (None, hideLoading (updateStatus ''connected'' st1)))))"

definition fetchData_settled :: "engine \<Rightarrow> (nat \<Rightarrow> real) \<Rightarrow> response \<Rightarrow> monitor \<Rightarrow> result" where
  "fetchData_settled rt rnd resp st =
     (case fetchData_try rt resp st of
        (None, st1) \<Rightarrow> (None, st1)
      | (Some e, st1) \<Rightarrow>
          updateData rt (hideLoading (updateStatus ''error'' st1)) (generateMockData rnd))"

section \<open>The scheduler\<close>

text \<open>
  The script runs on one thread: each handler runs to its end (or to its next \<open>await\<close>)
  before another starts. \<open>inFlight\<close> counts the requests issued by \<open>fetchData\<close> and not yet
  settled; it belongs to the browser, not to the monitor.
\<close>

record world =
  mon :: monitor
  inFlight :: nat

text \<open>\<open>fetchData()\<close> up to its first \<open>await\<close>: the request leaves.\<close>

definition fetchData_issue :: "world \<Rightarrow> world" where
  "fetchData_issue w = w\<lparr>inFlight := inFlight w + 1\<rparr>"

definition stopMonitoring :: "monitor \<Rightarrow> monitor" where
  "stopMonitoring st =
     (let st = st\<lparr>isRunning := False\<rparr> in
      if updateInterval st then st\<lparr>updateInterval := False\<rparr> else st)"

definition togglePause :: "monitor \<Rightarrow> monitor" where
  "togglePause st = st\<lparr>paused := \<not> paused st\<rparr>"

definition refreshData :: "world \<Rightarrow> world" where
  "refreshData w = fetchData_issue (w\<lparr>mon := showLoading (mon w)\<rparr>)"

definition startMonitoring :: "world \<Rightarrow> world" where
  "startMonitoring w = fetchData_issue (w\<lparr>mon := (mon w)\<lparr>isRunning := True, updateInterval := True\<rparr>\<rparr>)"

text \<open>
  \<open>new TBMDataMonitor()\<close> on the loaded page: the constructor's fields, then \<open>init()\<close>, which
  draws the table with \<open>--\<close> in every cell, starts monitoring and shows \<open>connecting\<close>.
  The elements outside the table start as the page declares them, here empty.
\<close>

definition constructed :: world where
  "constructed =
     (let st = \<lparr>isRunning = False, updateInterval = False, lastData = JNull, paused = False,
                lastValues = (\<lambda>_. JUndefined), lastPredictionValues = (\<lambda>_. JUndefined),
                tPredictionCell = (\<lambda>_. \<lparr>textContent = ''--'', className = ''data-value''\<rparr>),
                valueCell = (\<lambda>_. \<lparr>textContent = ''--'', className = ''data-value''\<rparr>),
                changeCell = (\<lambda>_. \<lparr>textContent = ''--'', className = ''change-value''\<rparr>),
                predictionCell = (\<lambda>_. \<lparr>textContent = ''--'', className = ''data-value''\<rparr>),
                validCountEl = 0, missingCountEl = 0, machineStatus = [], statusDot = [],
                loadingOverlay = False\<rparr>;
          w = startMonitoring \<lparr>mon = st, inFlight = 0\<rparr>
      in w\<lparr>mon := updateStatus ''connecting'' (mon w)\<rparr>)"

text \<open>
  The events the page delivers after construction: the 60-second timer, the pause and
  refresh controls (button or key), \<open>beforeunload\<close>, and the settling of a request, which
  carries the response and the random draws a fallback would use. A timer event needs a
  live timer and a settling needs a request in flight; elsewhere they do nothing. An
  exception that leaves a handler is reported by the browser and changes nothing further.
\<close>

datatype event =
    TimerTick
  | PauseClick
  | RefreshClick
  | BeforeUnload
  | FetchSettled response "nat \<Rightarrow> real"

definition dispatch :: "engine \<Rightarrow> world \<Rightarrow> event \<Rightarrow> world" where
  "dispatch rt w ev =
     (case ev of
        TimerTick \<Rightarrow>
          (if updateInterval (mon w) then (if \<not> paused (mon w) then fetchData_issue w else w) else w)
      | PauseClick \<Rightarrow> w\<lparr>mon := togglePause (mon w)\<rparr>
      | RefreshClick \<Rightarrow> refreshData w
      | BeforeUnload \<Rightarrow> w\<lparr>mon := stopMonitoring (mon w)\<rparr>
      | FetchSettled resp rnd \<Rightarrow>
          (if inFlight w = 0 then w
           else \<lparr>mon = snd (fetchData_settled rt rnd resp (mon w)), inFlight = inFlight w - 1\<rparr>))"

definition runEvents :: "engine \<Rightarrow> world \<Rightarrow> event list \<Rightarrow> world" where
  "runEvents rt w evs = foldl (dispatch rt) w evs"

text \<open>A run of reconciliation cycles: \<open>updateData\<close> on each batch in turn.\<close>

definition runCycles :: "engine \<Rightarrow> monitor \<Rightarrow> jsval list \<Rightarrow> monitor" where
  "runCycles rt st ds = foldl (\<lambda>s d. snd (updateData rt s d)) st ds"

section \<open>Reading a batch\<close>

text \<open>
  What a cycle reads from a batch, as total functions for use in statements: a read that
  would throw gives \<open>undefined\<close> here.
\<close>

definition valueOr :: "error + jsval \<Rightarrow> jsval" where
  "valueOr m = (case m of Inl _ \<Rightarrow> JUndefined | Inr v \<Rightarrow> v)"

definition featuresOf :: "jsval \<Rightarrow> jsval" where
  "featuresOf dat = valueOr (getProp dat ''features'')"

definition bufferReadyOf :: "jsval \<Rightarrow> jsval" where
  "bufferReadyOf dat = js_or (valueOr (getProp dat ''buffer_ready'')) (JBool False)"

definition entryAt :: "jsval \<Rightarrow> nat \<Rightarrow> jsval" where
  "entryAt features i = valueOr (getIndex features (i - 1))"

definition field :: "jsval \<Rightarrow> string \<Rightarrow> jsval" where
  "field e key = valueOr (getProp e key)"

definition entryOf :: "jsval \<Rightarrow> nat \<Rightarrow> jsval" where
  "entryOf dat i = entryAt (featuresOf dat) i"

definition currentValueOf :: "jsval \<Rightarrow> nat \<Rightarrow> jsval" where
  "currentValueOf dat i = field (entryOf dat i) ''current_value''"

definition currentSourceOf :: "jsval \<Rightarrow> nat \<Rightarrow> jsval" where
  "currentSourceOf dat i = field (entryOf dat i) ''current_source''"

definition predictionValueOf :: "jsval \<Rightarrow> nat \<Rightarrow> jsval" where
  "predictionValueOf dat i = field (entryOf dat i) ''prediction_value''"

text \<open>An entry can be read when it is there and is neither \<open>null\<close> nor \<open>undefined\<close>.\<close>

definition readable :: "jsval \<Rightarrow> nat \<Rightarrow> bool" where
  "readable features i =
     (case getIndex features (i - 1) of Inl _ \<Rightarrow> False | Inr e \<Rightarrow> e \<noteq> JNull \<and> e \<noteq> JUndefined)"

definition statusOf :: "jsval \<Rightarrow> string" where
  "statusOf v = (case determineDataStatus v of Inl _ \<Rightarrow> [] | Inr s \<Rightarrow> s)"

text \<open>
  The call of \<open>updateFeatureDisplayWithoutSaving\<close> that the first loop makes for feature
  \<open>i\<close>, here on a state of one's choice.
\<close>

definition displayRow :: "engine \<Rightarrow> monitor \<Rightarrow> jsval \<Rightarrow> jsval \<Rightarrow> nat \<Rightarrow> result" where
  "displayRow rt st features bufferReady i =
     updateFeatureDisplayWithoutSaving rt st i
       (field (entryAt features i) ''current_value'')
       (statusOf (field (entryAt features i) ''current_value''))
       (field (entryAt features i) ''current_source'')
       (field (entryAt features i) ''prediction_value'')
       bufferReady"

text \<open>The counter that a status increments.\<close>

definition count :: "string \<Rightarrow> tally \<Rightarrow> tally" where
  "count currentStatus c =
     (if currentStatus = ''valid'' then c\<lparr>validCount := validCount c + 1\<rparr>
      else if currentStatus = ''predicted'' then c\<lparr>predictedCount := predictedCount c + 1\<rparr>
      else if currentStatus = ''missing'' then c\<lparr>missingCount := missingCount c + 1\<rparr>
      else c)"

text \<open>
  What \<open>updateData\<close> does after its two loops, given the counters of the first: the
  outcome (a TypeError when the status text cannot be built) and the state reached.
\<close>

definition stepCountOf :: "jsval \<Rightarrow> jsval" where
  "stepCountOf dat = js_or (field dat ''step_count'') (JNum (Fin 0))"

definition stepInfoThrows :: "jsval \<Rightarrow> bool" where
  "stepInfoThrows dat = (\<not> truthy (bufferReadyOf dat) \<and> toStringThrows (stepCountOf dat))"

definition closing :: "jsval \<Rightarrow> error option" where
  "closing dat = (if stepInfoThrows dat then Some TypeError else None)"

definition afterLoops :: "jsval \<Rightarrow> tally \<Rightarrow> monitor \<Rightarrow> monitor" where
  "afterLoops dat c st =
     (case updateStepInfo (stepCountOf dat) (bufferReadyOf dat)
             (updateTBMStatusFromBackend (field dat ''tbm_status'')
                (updateStats (validCount c) (missingCount c) (predictedCount c) st))
      of (Some e, st4) \<Rightarrow> st4
       | (None, st4) \<Rightarrow> st4\<lparr>lastData := featuresOf dat\<rparr>)"

text \<open>The four cells of a feature's row.\<close>

definition rowOf :: "monitor \<Rightarrow> nat \<Rightarrow> cell \<times> cell \<times> cell \<times> cell" where
  "rowOf st i = (tPredictionCell st i, valueCell st i, changeCell st i, predictionCell st i)"

text \<open>
  Two states are the same outside a set of features when they differ at most in the rows
  and the stored predictions of those features: the last values, the scheduler's fields and
  the rest of the page are equal.
\<close>

definition sameOutside :: "nat set \<Rightarrow> monitor \<Rightarrow> monitor \<Rightarrow> bool" where
  "sameOutside S st st' =
     (lastValues st' = lastValues st
      \<and> (\<forall>j. j \<notin> S \<longrightarrow>
             rowOf st' j = rowOf st j \<and> lastPredictionValues st' j = lastPredictionValues st j)
      \<and> isRunning st' = isRunning st \<and> updateInterval st' = updateInterval st
      \<and> paused st' = paused st \<and> lastData st' = lastData st
      \<and> validCountEl st' = validCountEl st \<and> missingCountEl st' = missingCountEl st
      \<and> machineStatus st' = machineStatus st \<and> statusDot st' = statusDot st
      \<and> loadingOverlay st' = loadingOverlay st)"

text \<open>
  A cycle \<^emph>\<open>reconciles\<close> a batch when it gets past the format guard and runs to its end; a
  run of cycles is \<^emph>\<open>complete\<close> when none of them throws.
\<close>

definition reconciles :: "engine \<Rightarrow> monitor \<Rightarrow> jsval \<Rightarrow> bool" where
  "reconciles rt st dat =
     (truthy dat \<and> truthy (featuresOf dat) \<and> fst (updateData rt st dat) = None)"

text \<open>
  A batch is well formed when it passes the guard, each of the 31 entries can be read, no
  current value is one whose conversion to a string throws and the status text can be
  built; a state is convertible when none of its last values is such a value.
\<close>

definition wellFormed :: "jsval \<Rightarrow> bool" where
  "wellFormed dat =
     (truthy dat \<and> truthy (featuresOf dat) \<and> \<not> stepInfoThrows dat
      \<and> (\<forall>i\<in>{1..31}. readable (featuresOf dat) i \<and> \<not> toStringThrows (currentValueOf dat i)))"

definition convertible :: "monitor \<Rightarrow> bool" where
  "convertible st = (\<forall>i\<in>{1..31}. \<not> toStringThrows (lastValues st i))"

fun cyclesComplete :: "engine \<Rightarrow> monitor \<Rightarrow> jsval list \<Rightarrow> bool" where
  "cyclesComplete rt st [] = True"
| "cyclesComplete rt st (d # ds) =
     (fst (updateData rt st d) = None \<and> cyclesComplete rt (snd (updateData rt st d)) ds)"

text \<open>A state with the two fields that \<open>startMonitoring\<close> and \<open>stopMonitoring\<close> write set anew.\<close>

definition rescheduled :: "bool \<Rightarrow> bool \<Rightarrow> monitor \<Rightarrow> monitor" where
  "rescheduled a b st = st\<lparr>isRunning := a, updateInterval := b\<rparr>"

section \<open>The specification's words\<close>

text \<open>
  The text \<open>formatValue\<close> is specified to return: the marker for anything but a finite
  number, otherwise the exponential form above \<open>10^10\<close> in magnitude and a fixed number of
  decimals below.
\<close>

definition formatValue_spec :: "jsval \<Rightarrow> string" where
  "formatValue_spec v =
     (case v of
        JNum (Fin x) \<Rightarrow>
          (if \<bar>x\<bar> > 10 ^ 10 then exponentialDigits 2 x
           else if x \<ge> 1000 then fixedDigits 0 x
           else if x \<ge> 1 then fixedDigits 2 x
           else fixedDigits 4 x)
      | _ \<Rightarrow> ''--'')"

text \<open>
  The most recent non-absent value of a sequence of observations, starting from what was
  known before.
\<close>

fun mostRecent :: "jsval \<Rightarrow> jsval list \<Rightarrow> jsval" where
  "mostRecent known [] = known"
| "mostRecent known (v # vs) = mostRecent (if absent v then known else v) vs"

text \<open>
  The next-step prediction a batch has ready for a feature: its prediction value when the
  buffer is ready, nothing otherwise.
\<close>

definition readyPrediction :: "jsval \<Rightarrow> nat \<Rightarrow> jsval" where
  "readyPrediction dat i =
     (if truthy (bufferReadyOf dat) then predictionValueOf dat i else JUndefined)"

text \<open>
  The three cells of a row that do not depend on the last value: the t-time cell from the
  stored prediction, the value cell from the current value, its source and its status,
  and the next-step cell from the batch's prediction and readiness flag.
\<close>

definition tPredictionCell_spec :: "jsval \<Rightarrow> cell" where
  "tPredictionCell_spec stored =
     (if stored \<noteq> JUndefined
      then \<lparr>textContent = formatValue_spec stored, className = ''data-value predicted''\<rparr>
      else \<lparr>textContent = ''--'', className = ''data-value missing''\<rparr>)"

definition valueCell_spec :: "jsval \<Rightarrow> string \<Rightarrow> jsval \<Rightarrow> cell" where
  "valueCell_spec currentValue currentStatus currentSource =
     (if currentValue \<noteq> JNull \<and> currentValue \<noteq> JUndefined
      then \<lparr>textContent = formatValue_spec currentValue,
            className =
              (if currentSource = JStr ''api'' then ''data-value api-data''
               else if currentSource = JStr ''predicted'' \<or> currentSource = JStr ''simulated''
                 then ''data-value filled-data''
               else if currentSource = JStr ''cached'' then ''data-value cached-data''
               else ''data-value '' @ currentStatus)\<rparr>
      else \<lparr>textContent = ''--'', className = ''data-value missing''\<rparr>)"

definition predictionCell_spec :: "jsval \<Rightarrow> jsval \<Rightarrow> cell" where
  "predictionCell_spec predictionValue bufferReady =
     (if \<not> absent predictionValue \<and> truthy bufferReady
      then \<lparr>textContent = formatValue_spec predictionValue, className = ''data-value predicted''\<rparr>
      else if \<not> truthy bufferReady
      then \<lparr>textContent = collectingText, className = ''data-value collecting''\<rparr>
      else \<lparr>textContent = ''--'', className = ''data-value missing''\<rparr>)"

text \<open>The text of the percentage in the change cell.\<close>

definition percentText :: "engine \<Rightarrow> jsnum \<Rightarrow> string" where
  "percentText rt p = (case toFixed rt 1 p of Inl _ \<Rightarrow> [] | Inr s \<Rightarrow> s)"

text \<open>
  The change cell as specified for a numeric current value against a numeric last known
  value: the difference, its percentage of the magnitude of the last value, and the class
  by the sign of the difference unless it is below \<open>10^-4\<close> in magnitude. The arithmetic
  is that of the program's numbers.
\<close>

definition changeCell_spec :: "engine \<Rightarrow> real \<Rightarrow> real \<Rightarrow> cell" where
  "changeCell_spec rt current lastKnown =
     (let change = js_sub (Fin current) (Fin lastKnown);
          changePercent = js_mul (js_div change (Fin \<bar>lastKnown\<bar>)) (Fin 100)
      in if js_lt (js_abs change) (round64 (1 / 10000)) then
           \<lparr>textContent = ''0'', className = ''change-value no-change''\<rparr>
         else if js_gt change (Fin 0) then
           \<lparr>textContent = ''+'' @ formatValue_spec (JNum change) @ '' (+''
                            @ percentText rt changePercent @ ''%)'',
            className = ''change-value increase''\<rparr>
         else
           \<lparr>textContent = formatValue_spec (JNum change) @ '' (''
                            @ percentText rt changePercent @ ''%)'',
            className = ''change-value decrease''\<rparr>)"

section \<open>Sample inputs\<close>

definition sampleEngine :: engine where
  "sampleEngine = \<lparr>stringToNumber = (\<lambda>_. NaN), numberToString = (\<lambda>_. ''1e+21'')\<rparr>"

definition entry :: "jsval \<Rightarrow> jsval \<Rightarrow> jsval" where
  "entry cv pv =
     JObj [(''current_value'', cv), (''current_source'', JStr ''api''), (''prediction_value'', pv)]"

definition batch :: "jsval list \<Rightarrow> nat \<Rightarrow> bool \<Rightarrow> jsval" where
  "batch fs n ready =
     JObj [(''features'', JArr fs), (''step_count'', JNum (Fin (real n))),
           (''buffer_ready'', JBool ready), (''tbm_status'', JStr ''active'')]"

text \<open>A batch of \<open>len\<close> entries (\<open>len \<ge> 1\<close>) in which only the first feature carries values.\<close>

definition batchN :: "nat \<Rightarrow> jsval \<Rightarrow> jsval \<Rightarrow> nat \<Rightarrow> bool \<Rightarrow> jsval" where
  "batchN len cv pv n ready =
     batch (entry cv pv # replicate (len - 1) (entry JNull JNull)) n ready"

text \<open>A batch of 31 entries in which only the first feature carries values.\<close>

definition batch1 :: "jsval \<Rightarrow> jsval \<Rightarrow> nat \<Rightarrow> bool \<Rightarrow> jsval" where
  "batch1 cv pv n ready = batch (entry cv pv # replicate 30 (entry JNull JNull)) n ready"

section \<open>Evaluation on numerals\<close>

lemma decimal_numeral [simp]:
  "decimal (numeral k) =
     (if (numeral k :: nat) < 10 then [digitChar (numeral k)]
      else decimal (numeral k div 10) @ [digitChar (numeral k mod 10)])"
  by (rule decimal.simps)

lemma decimal_0 [simp]: "decimal 0 = ''0''"
  by (simp add: decimal.simps digitChar_def)

lemma decimal_1 [simp]: "decimal (Suc 0) = ''1''"
  by (simp add: decimal.simps digitChar_def)

lemma replicate_numeral [simp]: "replicate (numeral k) x = x # replicate (pred_numeral k) x"
  by (simp add: numeral_eq_Suc)

lemma binaryLength_numeral [simp]:
  "binaryLength (numeral k) = binaryLength (numeral k div 2) + 1"
  by (subst binaryLength.simps) simp

lemma binaryLength_0 [simp]: "binaryLength 0 = 0"
  by (simp add: binaryLength.simps)

lemma binaryLength_1 [simp]: "binaryLength (Suc 0) = 1"
  by (simp add: binaryLength.simps)

lemmas round64_defs = round64_def exponent2_def scale2_def roundHalfEven_def Let_def

lemmas number_text_defs =
  fixedDigits_def exponentialDigits_def exponent10_def scale10_def roundHalfUp_def digitChar_def
  Let_def

section \<open>Rounding\<close>

text \<open>The number of binary digits, and with it the exponent of a power of two.\<close>

lemma binaryLength_eq:
  "2 ^ k \<le> n \<Longrightarrow> n < 2 ^ Suc k \<Longrightarrow> binaryLength n = Suc k"
proof (induction k arbitrary: n)
  case 0
  then have "n = 1" by simp
  then show ?case by (simp add: binaryLength.simps)
next
  case (Suc k)
  from Suc.prems have "2 ^ k \<le> n div 2" "n div 2 < 2 ^ Suc k" by auto
  from Suc.IH [OF this] Suc.prems show ?case
    by (subst binaryLength.simps) auto
qed

lemma exponent2_power: "exponent2 (2 ^ k) = int k"
proof -
  have "binaryLength (2 ^ k) = Suc k"
    by (rule binaryLength_eq) simp_all
  then show ?thesis
    by (simp add: exponent2_def nat_power_eq)
qed

text \<open>A sum that leaves the range of the finite values is an infinity.\<close>

lemma round64_power_overflow:
  assumes "1024 \<le> k"
  shows "round64 (2 ^ k) = PosInf"
proof -
  have k: "k = (k - 52) + 52" using assms by simp
  have e: "max (exponent2 (2 ^ k)) (- 1022) = int k"
    by (simp add: exponent2_power)
  have sc: "scale2 (2 ^ k) (52 - int k) = 2 ^ 52"
  proof -
    have "(2::real) ^ k = 2 ^ (k - 52) * 2 ^ 52"
      by (subst k) (simp only: power_add)
    moreover have "nat (int k - 52) = k - 52" by simp
    ultimately show ?thesis
      using assms by (simp add: scale2_def)
  qed
  have n: "roundHalfEven ((2::real) ^ 52) = 2 ^ 52"
    by (simp add: roundHalfEven_def Let_def)
  have sc2: "scale2 (2 ^ 52) (int k - 52) = 2 ^ k"
  proof -
    have "(2::real) ^ k = 2 ^ 52 * 2 ^ (k - 52)"
      by (subst k) (simp only: power_add mult.commute)
    moreover have "nat (int k - 52) = k - 52" by simp
    ultimately show ?thesis
      using assms by (simp add: scale2_def)
  qed
  have big: "(2::real) ^ 1024 \<le> 2 ^ k"
    using assms by (intro power_increasing) simp_all
  have a: "\<bar>(2::real) ^ k\<bar> = 2 ^ k" by simp
  have nz: "(2::real) ^ k \<noteq> 0" "\<not> (2::real) ^ k < 0" by simp_all
  show ?thesis
    unfolding round64_def Let_def a e sc n
    using sc2 big nz by (simp only: of_int_power of_int_numeral if_False if_True)
qed

lemma round64_overflow: "js_add (Fin (2 ^ 1023)) (Fin (2 ^ 1023)) = PosInf"
proof -
  have s: "(2::real) ^ 1023 + 2 ^ 1023 = 2 ^ 1024" by simp
  have "round64 (2 ^ 1024) = PosInf"
    by (rule round64_power_overflow) simp
  with s show ?thesis
    by (simp only: js_add.simps)
qed

text \<open>
  Instances: the binary64 value of \<open>0.1\<close>, the sum \<open>0.1 + 0.2\<close> of the binary64 values,
  and ties going to the even neighbour.
\<close>

lemma round64_tenth: "round64 (1 / 10) = Fin (3602879701896397 / 2 ^ 55)"
  by (simp add: round64_defs)

lemma round64_sum:
  "js_add (Fin (3602879701896397 / 2 ^ 55)) (Fin (3602879701896397 / 2 ^ 54))
     = Fin (5404319552844596 / 2 ^ 54)"
  by (simp add: round64_defs)

lemma round64_ties:
  "round64 (2 ^ 53 + 1) = Fin (2 ^ 53)"
  "round64 (2 ^ 53 + 3) = Fin (2 ^ 53 + 4)"
  "round64 (- (2 ^ 53 + 3)) = Fin (- (2 ^ 53 + 4))"
  by (simp_all add: round64_defs)

section \<open>Classification and formatting\<close>

lemma formatValue_spec_eq: "formatValue rt v = Inr (formatValue_spec v)"
proof (cases v)
  case (JNum n)
  then show ?thesis
    by (cases n)
      (simp_all add: formatValue_def formatValue_spec_def isFiniteNum_def js_gt_def js_ge_def
        js_abs_def toFixed_def toExponential_def)
qed (simp_all add: formatValue_def formatValue_spec_def)

lemma determineDataStatus_eq:
  "determineDataStatus v =
     Inr (if v = JNull \<or> v = JUndefined then ''missing''
          else if \<exists>kvs. v = JObj kvs \<and> map_of kvs ''predicted'' = Some (JBool True)
            then ''predicted''
          else if \<exists>n. v = JNum n \<and> n \<noteq> NaN then ''valid''
          else if \<exists>kvs x. v = JObj kvs \<and> map_of kvs ''value'' = Some x \<and> x \<noteq> JUndefined
            then ''valid''
          else ''error'')"
  by (cases v)
    (auto simp: determineDataStatus_def typeof_def getProp_def bindE_def split: option.splits)

lemma statusOf_eq: "determineDataStatus v = Inr (statusOf v)"
  by (simp add: statusOf_def determineDataStatus_eq)

text \<open>
  C5, as amended. \<open>determineDataStatus\<close> returns one of the four statuses for every value and
  never throws: \<open>missing\<close> exactly for \<open>null\<close> and \<open>undefined\<close>; \<open>predicted\<close> exactly for an
  object whose \<open>predicted\<close> property is strictly \<open>true\<close>; \<open>valid\<close> exactly for a number other
  than \<open>NaN\<close> (the infinities included) and for an object whose \<open>predicted\<close> property is not
  strictly \<open>true\<close> and whose \<open>value\<close> property is not \<open>undefined\<close>; \<open>error\<close> for everything
  else.
\<close>

theorem determineDataStatus_total:
  "(\<exists>s. determineDataStatus v = Inr s \<and> s \<in> {''missing'', ''predicted'', ''valid'', ''error''})
   \<and> (determineDataStatus v = Inr ''missing'' \<longleftrightarrow> v = JNull \<or> v = JUndefined)
   \<and> (determineDataStatus v = Inr ''predicted'' \<longleftrightarrow>
        (\<exists>kvs. v = JObj kvs \<and> map_of kvs ''predicted'' = Some (JBool True)))
   \<and> (determineDataStatus v = Inr ''valid'' \<longleftrightarrow>
        (\<exists>n. v = JNum n \<and> n \<noteq> NaN)
        \<or> (\<exists>kvs x. v = JObj kvs \<and> map_of kvs ''predicted'' \<noteq> Some (JBool True)
              \<and> map_of kvs ''value'' = Some x \<and> x \<noteq> JUndefined))
   \<and> (determineDataStatus v = Inr ''error'' \<longleftrightarrow>
        v \<noteq> JNull \<and> v \<noteq> JUndefined \<and> (\<forall>n. v = JNum n \<longrightarrow> n = NaN)
        \<and> (\<forall>kvs. v = JObj kvs \<longrightarrow>
              map_of kvs ''predicted'' \<noteq> Some (JBool True)
              \<and> \<not> (\<exists>x. map_of kvs ''value'' = Some x \<and> x \<noteq> JUndefined)))"
  by (cases v) (auto simp: determineDataStatus_eq)

theorem determineDataStatus_total_witness:
  "determineDataStatus (JObj [(''value'', JNum (Fin 5)), (''predicted'', JBool False)]) = Inr ''valid''
   \<and> determineDataStatus (JArr []) = Inr ''error''
   \<and> determineDataStatus (JObj [(''value'', JNum (Fin 5)), (''predicted'', JBool True)]) = Inr ''predicted''"
  using determineDataStatus_total [of "JObj [(''value'', JNum (Fin 5)), (''predicted'', JBool False)]"]
    determineDataStatus_total [of "JArr []"]
    determineDataStatus_total [of "JObj [(''value'', JNum (Fin 5)), (''predicted'', JBool True)]"]
  by simp

text \<open>
  C5 as stated fails: positive infinity (what \<open>1e999\<close> in a JSON body parses to) is classified
  \<open>valid\<close> though it is not a finite number, and an object whose \<open>predicted\<close> flag is the
  truthy value \<open>1\<close> is classified \<open>valid\<close> as well.
\<close>

theorem determineDataStatus_valid_counterexample:
  "determineDataStatus (JNum PosInf) = Inr ''valid'' \<and> \<not> isFiniteNum PosInf
   \<and> determineDataStatus (JObj [(''value'', JNum (Fin 5)), (''predicted'', JNum (Fin 1))]) = Inr ''valid''
   \<and> truthy (JNum (Fin 1))"
  by (simp add: determineDataStatus_eq isFiniteNum_def truthy_def)

text \<open>
  C10. \<open>formatValue\<close> never throws. It returns the marker \<open>--\<close> for anything that is not a
  finite number; for a finite number the exponential form with two digits above \<open>10^10\<close> in
  magnitude, otherwise no decimals from 1000 on, two decimals from 1 on and four decimals
  below; \<open>formatValue(13.1)\<close> is \<open>13.10\<close>.
\<close>

theorem formatValue_total:
  "formatValue rt v =
     Inr (case v of
            JNum (Fin x) \<Rightarrow>
              (if \<bar>x\<bar> > 10 ^ 10 then exponentialDigits 2 x
               else if x \<ge> 1000 then fixedDigits 0 x
               else if x \<ge> 1 then fixedDigits 2 x
               else fixedDigits 4 x)
          | _ \<Rightarrow> ''--'')
   \<and> formatValue rt (JNum (Fin 13.1)) = Inr ''13.10''
   \<and> formatValue rt (JNum (Fin 12345678901.5)) = Inr ''1.23e+10''
   \<and> formatValue rt (JNum (Fin 1234.5)) = Inr ''1235''
   \<and> formatValue rt (JNum (Fin (- 0.5))) = Inr ''-0.5000''"
  by (simp add: formatValue_spec_eq formatValue_spec_def number_text_defs)


section \<open>The change cell\<close>

lemma toFixed1_eq: "toFixed rt 1 p = Inr (percentText rt p)"
  by (cases p) (simp_all add: percentText_def toFixed_def)

lemma toFixed_Suc0_eq [simp]: "toFixed rt (Suc 0) p = Inr (percentText rt p)"
  using toFixed1_eq [of rt p] by simp

lemma withE_Inr [simp]: "withE (Inr x) st f = f x"
  by (simp add: withE_def)

lemma withE_Inl [simp]: "withE (Inl e) st f = (Some e, st)"
  by (simp add: withE_def)

lemma thenDo_None [simp]: "thenDo (None, st) f = f st"
  by (simp add: thenDo_def)

lemma thenDo_Some [simp]: "thenDo (Some e, st) f = (Some e, st)"
  by (simp add: thenDo_def)

lemma bindE_Inr [simp]: "bindE (Inr x) f = f x"
  by (simp add: bindE_def)

lemma bindE_Inl [simp]: "bindE (Inl e) f = Inl e"
  by (simp add: bindE_def)

text \<open>The method writes at most the change cell of its feature.\<close>

lemma ucv_shape:
  "snd (updateChangeValueWithoutSaving rt st i cv) =
     st\<lparr>changeCell := (changeCell st)
          (i := changeCell (snd (updateChangeValueWithoutSaving rt st i cv)) i)\<rparr>"
  by (simp add: updateChangeValueWithoutSaving_def js_minus_def Let_def formatValue_spec_eq
      toFixed1_eq)

text \<open>What it writes depends on the state only through the last value of the feature.\<close>

lemma ucv_dep:
  assumes "lastValues s1 i = lastValues s2 i"
  shows "fst (updateChangeValueWithoutSaving rt s1 i cv) =
           fst (updateChangeValueWithoutSaving rt s2 i cv)"
    and "fst (updateChangeValueWithoutSaving rt s1 i cv) = None \<Longrightarrow>
           changeCell (snd (updateChangeValueWithoutSaving rt s1 i cv)) i =
           changeCell (snd (updateChangeValueWithoutSaving rt s2 i cv)) i"
  using assms
  by (auto simp add: updateChangeValueWithoutSaving_def js_minus_def Let_def formatValue_spec_eq
      split: if_splits)

lemma ucv_numeric:
  assumes "lastValues st i = JNum (Fin l)"
  shows "updateChangeValueWithoutSaving rt st i (JNum (Fin c)) =
           (None, st\<lparr>changeCell := (changeCell st)(i := changeCell_spec rt c l)\<rparr>)"
  using assms
  by (simp add: updateChangeValueWithoutSaving_def js_minus_def Let_def formatValue_spec_eq
      toFixed1_eq changeCell_spec_def js_sub_def js_neg_def js_abs_def js_gt_def)

lemma ucv_first:
  assumes "lastValues st i = JUndefined \<or> lastValues st i = JNull"
    and "fst (updateChangeValueWithoutSaving rt st i cv) = None"
  shows "changeCell (snd (updateChangeValueWithoutSaving rt st i cv)) i =
           \<lparr>textContent = ''--'', className = ''change-value no-change''\<rparr>"
  using assms
  by (auto simp: updateChangeValueWithoutSaving_def Let_def split: if_splits)

lemma ucv_absent:
  assumes "cv = JNull \<or> cv = JUndefined"
  shows "updateChangeValueWithoutSaving rt st i cv =
           (None, st\<lparr>changeCell := (changeCell st)
              (i := \<lparr>textContent = ''--'', className = ''change-value no-change''\<rparr>)\<rparr>)"
  using assms by (auto simp: updateChangeValueWithoutSaving_def)


section \<open>One row\<close>

text \<open>
  \<open>updateFeatureDisplayWithoutSaving\<close> with its steps in order: the t-time cell and the
  value cell, then the change cell, and only if that did not throw the next-step cell and
  the stored prediction.
\<close>

lemma ufd_eq:
  "updateFeatureDisplayWithoutSaving rt st i cv s src pv br =
     (case updateChangeValueWithoutSaving rt
             (st\<lparr>tPredictionCell := (tPredictionCell st)
                    (i := tPredictionCell_spec (lastPredictionValues st i)),
                  valueCell := (valueCell st)(i := valueCell_spec cv s src)\<rparr>) i cv
      of (Some e, st3) \<Rightarrow> (Some e, st3)
       | (None, st3) \<Rightarrow>
           (None, st3\<lparr>predictionCell := (predictionCell st3)(i := predictionCell_spec pv br),
                    lastPredictionValues := (lastPredictionValues st3)
                      (i := if \<not> absent pv \<and> truthy br then pv
                            else lastPredictionValues st3 i)\<rparr>))"
proof -
  define st1 where "st1 = st\<lparr>tPredictionCell := (tPredictionCell st)
                    (i := tPredictionCell_spec (lastPredictionValues st i))\<rparr>"
  define st2 where "st2 = st1\<lparr>valueCell := (valueCell st1)(i := valueCell_spec cv s src)\<rparr>"
  have step1: "(if lastPredictionValues st i \<noteq> JUndefined then
          withE (formatValue rt (lastPredictionValues st i)) st (\<lambda>t.
            (None, st\<lparr>tPredictionCell := (tPredictionCell st)(i :=
               \<lparr>textContent = t, className = ''data-value predicted''\<rparr>)\<rparr>))
        else
          (None, st\<lparr>tPredictionCell := (tPredictionCell st)(i :=
             \<lparr>textContent = ''--'', className = ''data-value missing''\<rparr>)\<rparr>)) = (None, st1)"
    by (simp add: st1_def formatValue_spec_eq tPredictionCell_spec_def)
  have step2: "(if cv \<noteq> JNull \<and> cv \<noteq> JUndefined then
          withE (formatValue rt cv) st1 (\<lambda>t.
            (None, st1\<lparr>valueCell := (valueCell st1)(i :=
               \<lparr>textContent = t,
                className =
                  (if src = JStr ''api'' then ''data-value api-data''
                   else if src = JStr ''predicted'' \<or> src = JStr ''simulated''
                     then ''data-value filled-data''
                   else if src = JStr ''cached'' then ''data-value cached-data''
                   else ''data-value '' @ s)\<rparr>)\<rparr>))
        else
          (None, st1\<lparr>valueCell := (valueCell st1)(i :=
             \<lparr>textContent = ''--'', className = ''data-value missing''\<rparr>)\<rparr>)) = (None, st2)"
    unfolding st2_def valueCell_spec_def formatValue_spec_eq withE_Inr by simp
  have step4: "(if pv \<noteq> JNull \<and> pv \<noteq> JUndefined \<and> truthy br then
          withE (formatValue rt pv) st3 (\<lambda>t.
            (None, st3\<lparr>predictionCell := (predictionCell st3)(i :=
                         \<lparr>textContent = t, className = ''data-value predicted''\<rparr>),
                       lastPredictionValues := (lastPredictionValues st3)(i := pv)\<rparr>))
        else if \<not> truthy br then
          (None, st3\<lparr>predictionCell := (predictionCell st3)(i :=
             \<lparr>textContent = collectingText, className = ''data-value collecting''\<rparr>)\<rparr>)
        else
          (None, st3\<lparr>predictionCell := (predictionCell st3)(i :=
             \<lparr>textContent = ''--'', className = ''data-value missing''\<rparr>)\<rparr>))
      = (None, st3\<lparr>predictionCell := (predictionCell st3)(i := predictionCell_spec pv br),
                    lastPredictionValues := (lastPredictionValues st3)
                      (i := if \<not> absent pv \<and> truthy br then pv
                            else lastPredictionValues st3 i)\<rparr>)" for st3
    unfolding predictionCell_spec_def formatValue_spec_eq withE_Inr absent_def by simp
  have "updateFeatureDisplayWithoutSaving rt st i cv s src pv br =
          thenDo (updateChangeValueWithoutSaving rt st2 i cv) (\<lambda>st3.
            (None, st3\<lparr>predictionCell := (predictionCell st3)(i := predictionCell_spec pv br),
                    lastPredictionValues := (lastPredictionValues st3)
                      (i := if \<not> absent pv \<and> truthy br then pv
                            else lastPredictionValues st3 i)\<rparr>))"
    unfolding updateFeatureDisplayWithoutSaving_def step1 thenDo_None step2 step4 ..
  then show ?thesis
    by (simp add: thenDo_def st2_def st1_def)
qed

lemma sameOutside_refl [simp]: "sameOutside S st st"
  by (simp add: sameOutside_def)

lemma sameOutside_trans:
  "sameOutside S st st' \<Longrightarrow> sameOutside T st' st'' \<Longrightarrow> sameOutside (S \<union> T) st st''"
  by (simp add: sameOutside_def)

lemma sameOutside_lastValues: "sameOutside S st st' \<Longrightarrow> lastValues st' = lastValues st"
  by (simp add: sameOutside_def)

lemma sameOutside_row:
  "sameOutside S st st' \<Longrightarrow> j \<notin> S \<Longrightarrow>
     rowOf st' j = rowOf st j \<and> lastPredictionValues st' j = lastPredictionValues st j"
  by (simp add: sameOutside_def)

lemma ucv_sameOutside:
  "sameOutside {i} st (snd (updateChangeValueWithoutSaving rt st i cv))"
  by (subst ucv_shape) (simp add: sameOutside_def rowOf_def)

text \<open>Whatever the outcome, only the row and the stored prediction of the feature change.\<close>

lemma ufd_sameOutside:
  "sameOutside {i} st (snd (updateFeatureDisplayWithoutSaving rt st i cv s src pv br))"
proof -
  let ?st2 = "st\<lparr>tPredictionCell := (tPredictionCell st)
                    (i := tPredictionCell_spec (lastPredictionValues st i)),
                  valueCell := (valueCell st)(i := valueCell_spec cv s src)\<rparr>"
  have a: "sameOutside {i} st ?st2"
    by (simp add: sameOutside_def rowOf_def)
  have b: "sameOutside {i} ?st2 (snd (updateChangeValueWithoutSaving rt ?st2 i cv))"
    by (rule ucv_sameOutside)
  have c: "sameOutside {i} st (snd (updateChangeValueWithoutSaving rt ?st2 i cv))"
    using sameOutside_trans [OF a b] by simp
  show ?thesis
  proof (cases "updateChangeValueWithoutSaving rt ?st2 i cv")
    case (Pair e st3)
    with c have "sameOutside {i} st st3" by simp
    then show ?thesis
      by (cases e) (simp_all add: ufd_eq Pair sameOutside_def rowOf_def)
  qed
qed

text \<open>The row after a call that did not throw.\<close>

lemma ufd_success:
  assumes "fst (updateFeatureDisplayWithoutSaving rt st i cv s src pv br) = None"
  defines "r \<equiv> snd (updateFeatureDisplayWithoutSaving rt st i cv s src pv br)"
  shows "tPredictionCell r i = tPredictionCell_spec (lastPredictionValues st i)"
    and "valueCell r i = valueCell_spec cv s src"
    and "changeCell r i = changeCell (snd (updateChangeValueWithoutSaving rt st i cv)) i"
    and "predictionCell r i = predictionCell_spec pv br"
    and "lastPredictionValues r i =
           (if \<not> absent pv \<and> truthy br then pv else lastPredictionValues st i)"
    and "fst (updateChangeValueWithoutSaving rt st i cv) = None"
proof -
  let ?st2 = "st\<lparr>tPredictionCell := (tPredictionCell st)
                    (i := tPredictionCell_spec (lastPredictionValues st i)),
                  valueCell := (valueCell st)(i := valueCell_spec cv s src)\<rparr>"
  obtain e st3 where u: "updateChangeValueWithoutSaving rt ?st2 i cv = (e, st3)"
    by (cases "updateChangeValueWithoutSaving rt ?st2 i cv")
  from assms(1) u have e: "e = None"
    by (cases e) (simp_all add: ufd_eq)
  have lv: "lastValues ?st2 i = lastValues st i" by simp
  have sh: "st3 = ?st2\<lparr>changeCell := (changeCell ?st2)(i := changeCell st3 i)\<rparr>"
    using ucv_shape [of rt ?st2 i cv] u by simp
  have r: "r = st3\<lparr>predictionCell := (predictionCell st3)(i := predictionCell_spec pv br),
                    lastPredictionValues := (lastPredictionValues st3)
                      (i := if \<not> absent pv \<and> truthy br then pv
                            else lastPredictionValues st3 i)\<rparr>"
    unfolding r_def by (simp add: ufd_eq u e)
  show "fst (updateChangeValueWithoutSaving rt st i cv) = None"
    using ucv_dep(1) [OF lv, of rt cv] u e by simp
  show "changeCell r i = changeCell (snd (updateChangeValueWithoutSaving rt st i cv)) i"
    using ucv_dep(2) [OF lv, of rt cv] u e r by simp
  show "tPredictionCell r i = tPredictionCell_spec (lastPredictionValues st i)"
    by (subst r, subst sh) simp
  show "valueCell r i = valueCell_spec cv s src"
    by (subst r, subst sh) simp
  show "predictionCell r i = predictionCell_spec pv br"
    by (subst r) simp
  show "lastPredictionValues r i =
           (if \<not> absent pv \<and> truthy br then pv else lastPredictionValues st i)"
    by (subst r, subst sh) simp
qed

text \<open>A call that throws has stored no prediction.\<close>

lemma ufd_failure:
  assumes "fst (updateFeatureDisplayWithoutSaving rt st i cv s src pv br) \<noteq> None"
  shows "lastPredictionValues (snd (updateFeatureDisplayWithoutSaving rt st i cv s src pv br))
           = lastPredictionValues st"
proof -
  let ?st2 = "st\<lparr>tPredictionCell := (tPredictionCell st)
                    (i := tPredictionCell_spec (lastPredictionValues st i)),
                  valueCell := (valueCell st)(i := valueCell_spec cv s src)\<rparr>"
  obtain e st3 where u: "updateChangeValueWithoutSaving rt ?st2 i cv = (e, st3)"
    by (cases "updateChangeValueWithoutSaving rt ?st2 i cv")
  from assms u obtain x where e: "e = Some x"
    by (cases e) (simp_all add: ufd_eq)
  have sh: "st3 = ?st2\<lparr>changeCell := (changeCell ?st2)(i := changeCell st3 i)\<rparr>"
    using ucv_shape [of rt ?st2 i cv] u by simp
  have "snd (updateFeatureDisplayWithoutSaving rt st i cv s src pv br) = st3"
    by (simp add: ufd_eq u e)
  then show ?thesis
    by (subst (asm) sh) simp
qed

text \<open>
  Whether the call throws, and the row it leaves when it does not, depend on the state only
  through the feature's own last value and stored prediction.
\<close>

lemma ufd_dep:
  assumes "lastValues s1 i = lastValues s2 i"
    and "lastPredictionValues s1 i = lastPredictionValues s2 i"
  shows "fst (updateFeatureDisplayWithoutSaving rt s1 i cv s src pv br) =
           fst (updateFeatureDisplayWithoutSaving rt s2 i cv s src pv br)"
    and "fst (updateFeatureDisplayWithoutSaving rt s1 i cv s src pv br) = None \<Longrightarrow>
           rowOf (snd (updateFeatureDisplayWithoutSaving rt s1 i cv s src pv br)) i =
           rowOf (snd (updateFeatureDisplayWithoutSaving rt s2 i cv s src pv br)) i
           \<and> lastPredictionValues (snd (updateFeatureDisplayWithoutSaving rt s1 i cv s src pv br)) i =
             lastPredictionValues (snd (updateFeatureDisplayWithoutSaving rt s2 i cv s src pv br)) i"
proof -
  let ?a = "\<lambda>st. st\<lparr>tPredictionCell := (tPredictionCell st)
                    (i := tPredictionCell_spec (lastPredictionValues st i)),
                  valueCell := (valueCell st)(i := valueCell_spec cv s src)\<rparr>"
  have lv: "lastValues (?a s1) i = lastValues (?a s2) i"
    using assms(1) by simp
  have f: "fst (updateFeatureDisplayWithoutSaving rt st i cv s src pv br) =
             fst (updateChangeValueWithoutSaving rt (?a st) i cv)" for st
    by (cases "updateChangeValueWithoutSaving rt (?a st) i cv")
       (auto simp: ufd_eq split: option.splits)
  show eq: "fst (updateFeatureDisplayWithoutSaving rt s1 i cv s src pv br) =
           fst (updateFeatureDisplayWithoutSaving rt s2 i cv s src pv br)"
    using ucv_dep(1) [OF lv, of rt cv] by (simp add: f)
  assume ok: "fst (updateFeatureDisplayWithoutSaving rt s1 i cv s src pv br) = None"
  then have ok2: "fst (updateFeatureDisplayWithoutSaving rt s2 i cv s src pv br) = None"
    using eq by simp
  have "changeCell (snd (updateChangeValueWithoutSaving rt s1 i cv)) i =
        changeCell (snd (updateChangeValueWithoutSaving rt s2 i cv)) i"
    using ucv_dep(2) [OF assms(1), of rt cv] ufd_success(6) [OF ok] by simp
  then show "rowOf (snd (updateFeatureDisplayWithoutSaving rt s1 i cv s src pv br)) i =
           rowOf (snd (updateFeatureDisplayWithoutSaving rt s2 i cv s src pv br)) i
           \<and> lastPredictionValues (snd (updateFeatureDisplayWithoutSaving rt s1 i cv s src pv br)) i =
             lastPredictionValues (snd (updateFeatureDisplayWithoutSaving rt s2 i cv s src pv br)) i"
    using ufd_success(1-5) [OF ok] ufd_success(1-5) [OF ok2] assms(2)
    by (simp add: rowOf_def)
qed


section \<open>The two loops\<close>

lemma getProp_field:
  "e \<noteq> JNull \<Longrightarrow> e \<noteq> JUndefined \<Longrightarrow> getProp e key = Inr (field e key)"
  by (cases e) (simp_all add: getProp_def field_def valueOr_def split: option.splits)

lemma getProp_absent: "e = JNull \<or> e = JUndefined \<Longrightarrow> getProp e key = Inl TypeError"
  by (auto simp: getProp_def)

lemma truthy_defined: "truthy v \<Longrightarrow> v \<noteq> JNull \<and> v \<noteq> JUndefined"
  by (auto simp: truthy_def)

lemma readable_getIndex:
  "readable F i \<Longrightarrow> getIndex F (i - 1) = Inr (entryAt F i)
     \<and> entryAt F i \<noteq> JNull \<and> entryAt F i \<noteq> JUndefined"
  by (auto simp: readable_def entryAt_def valueOr_def split: sum.splits)

lemma not_readable_getIndex:
  "\<not> readable F i \<Longrightarrow> getIndex F (i - 1) = Inl TypeError
     \<or> (\<exists>e. getIndex F (i - 1) = Inr e \<and> (e = JNull \<or> e = JUndefined))"
  by (cases F) (auto simp: readable_def getIndex_def split: sum.splits option.splits)

text \<open>The body of the first loop: a TypeError on an entry that cannot be read, the row otherwise.\<close>

lemma renderFeature_eq:
  "renderFeature rt F br f (st, c) =
     (if \<not> readable F (fid f) then (Some TypeError, st, c)
      else case displayRow rt st F br (fid f) of
             (Some e, st') \<Rightarrow> (Some e, st', c)
           | (None, st') \<Rightarrow>
               (None, st', count (statusOf (field (entryAt F (fid f)) ''current_value'')) c))"
proof (cases "readable F (fid f)")
  case True
  note r = readable_getIndex [OF True]
  show ?thesis
    unfolding renderFeature_def displayRow_def count_def
    using True r
    by (simp add: getProp_field statusOf_eq split del: if_split cong: if_cong)
next
  case False
  from not_readable_getIndex [OF False] show ?thesis
    using False
    by (auto simp: renderFeature_def getProp_absent)
qed

lemma displayRow_sameOutside: "sameOutside {i} st (snd (displayRow rt st F br i))"
  by (simp add: displayRow_def ufd_sameOutside)

lemma renderFeature_sameOutside:
  "sameOutside {fid f} st (fst (snd (renderFeature rt F br f (st, c))))"
  using displayRow_sameOutside [of "fid f" st rt F br]
  by (cases "displayRow rt st F br (fid f)")
     (auto simp: renderFeature_eq split: option.splits)

lemma renderPass_sameOutside:
  "sameOutside (fid ` set fs) st (fst (snd (renderPass rt F br fs (st, c))))"
proof (induction fs arbitrary: st c)
  case Nil
  show ?case by simp
next
  case (Cons f fs)
  obtain e st1 c1 where rf: "renderFeature rt F br f (st, c) = (e, st1, c1)"
    by (cases "renderFeature rt F br f (st, c)")
  have a: "sameOutside {fid f} st st1"
    using renderFeature_sameOutside [of f st rt F br c] rf by simp
  show ?case
  proof (cases e)
    case None
    have "sameOutside ({fid f} \<union> fid ` set fs) st (fst (snd (renderPass rt F br fs (st1, c1))))"
      by (rule sameOutside_trans [OF a Cons.IH])
    then show ?thesis by (simp add: rf None)
  next
    case (Some x)
    have "sameOutside ({fid f} \<union> fid ` set fs) st st1"
      using sameOutside_trans [OF a sameOutside_refl [of "fid ` set fs" st1]] .
    then show ?thesis by (simp add: rf Some)
  qed
qed

text \<open>A first loop that runs to its end could read every entry.\<close>

lemma renderPass_readable:
  "fst (renderPass rt F br fs (st, c)) = None \<Longrightarrow> f \<in> set fs \<Longrightarrow> readable F (fid f)"
proof (induction fs arbitrary: st c)
  case Nil
  then show ?case by simp
next
  case (Cons g gs)
  obtain e st1 c1 where rf: "renderFeature rt F br g (st, c) = (e, st1, c1)"
    by (cases "renderFeature rt F br g (st, c)")
  from Cons.prems(1) rf have e: "e = None"
    by (cases e) simp_all
  have g: "readable F (fid g)"
    using rf e by (auto simp: renderFeature_eq split: if_splits)
  from Cons.prems(1) rf e have rest: "fst (renderPass rt F br gs (st1, c1)) = None"
    by simp
  from Cons.prems(2) show ?case
    using g Cons.IH [OF rest] by auto
qed

text \<open>
  In a first loop that runs to its end, each feature's row is the one its call would have
  produced on the state the loop started from.
\<close>

lemma renderPass_row:
  assumes "fst (renderPass rt F br fs (st, c)) = None"
    and "distinct (map fid fs)" and "f \<in> set fs"
  shows "fst (displayRow rt st F br (fid f)) = None
     \<and> rowOf (fst (snd (renderPass rt F br fs (st, c)))) (fid f) =
         rowOf (snd (displayRow rt st F br (fid f))) (fid f)
     \<and> lastPredictionValues (fst (snd (renderPass rt F br fs (st, c)))) (fid f) =
         lastPredictionValues (snd (displayRow rt st F br (fid f))) (fid f)"
  using assms
proof (induction fs arbitrary: st c)
  case Nil
  then show ?case by simp
next
  case (Cons g gs)
  obtain e st1 c1 where rf: "renderFeature rt F br g (st, c) = (e, st1, c1)"
    by (cases "renderFeature rt F br g (st, c)")
  from Cons.prems(1) rf have e: "e = None"
    by (cases e) simp_all
  from Cons.prems(1) rf e have rest: "fst (renderPass rt F br gs (st1, c1)) = None"
    by simp
  have rd: "readable F (fid g)"
    using rf e by (auto simp: renderFeature_eq split: if_splits)
  have dg: "fst (displayRow rt st F br (fid g)) = None \<and> st1 = snd (displayRow rt st F br (fid g))"
    using rf e rd
    by (cases "displayRow rt st F br (fid g)") (auto simp: renderFeature_eq split: option.splits)
  have final: "renderPass rt F br (g # gs) (st, c) = renderPass rt F br gs (st1, c1)"
    by (simp add: rf e)
  show ?case
  proof (cases "f = g")
    case True
    from Cons.prems(2) have "fid g \<notin> fid ` set gs" by auto
    with renderPass_sameOutside [of gs st1 rt F br c1]
    have "rowOf (fst (snd (renderPass rt F br gs (st1, c1)))) (fid g) = rowOf st1 (fid g)
        \<and> lastPredictionValues (fst (snd (renderPass rt F br gs (st1, c1)))) (fid g)
            = lastPredictionValues st1 (fid g)"
      by (rule sameOutside_row)
    with dg True final show ?thesis by simp
  next
    case False
    with Cons.prems have f: "f \<in> set gs" and d: "distinct (map fid gs)"
      and ng: "fid g \<notin> fid ` set gs"
      by auto
    from f have "fid f \<in> fid ` set gs" by simp
    with ng have ne: "fid f \<noteq> fid g" by metis
    note ih = Cons.IH [OF rest d f]
    have so: "sameOutside {fid g} st st1"
      using renderFeature_sameOutside [of g st rt F br c] rf by simp
    have lv: "lastValues st1 (fid f) = lastValues st (fid f)"
      using sameOutside_lastValues [OF so] by simp
    have lp: "lastPredictionValues st1 (fid f) = lastPredictionValues st (fid f)"
      using sameOutside_row [OF so, of "fid f"] ne by simp
    have ok1: "fst (displayRow rt st1 F br (fid f)) = None"
      using ih by simp
    from ufd_dep [OF lv lp] ok1
    have "fst (displayRow rt st F br (fid f)) = None
        \<and> rowOf (snd (displayRow rt st1 F br (fid f))) (fid f) =
            rowOf (snd (displayRow rt st F br (fid f))) (fid f)
        \<and> lastPredictionValues (snd (displayRow rt st1 F br (fid f))) (fid f) =
            lastPredictionValues (snd (displayRow rt st F br (fid f))) (fid f)"
      unfolding displayRow_def by metis
    with ih final show ?thesis by simp
  qed
qed

text \<open>
  Whatever its outcome, the first loop stores a prediction for a feature only from a batch
  that is ready and carries one for it.
\<close>

lemma displayRow_stored:
  assumes "lastPredictionValues (snd (displayRow rt st F br i)) i \<noteq> lastPredictionValues st i"
  shows "truthy br \<and> \<not> absent (field (entryAt F i) ''prediction_value'')
     \<and> lastPredictionValues (snd (displayRow rt st F br i)) i
         = field (entryAt F i) ''prediction_value''"
proof (cases "fst (displayRow rt st F br i) = None")
  case True
  from ufd_success(5) [OF True [unfolded displayRow_def]] assms show ?thesis
    by (simp add: displayRow_def split: if_splits)
next
  case False
  from ufd_failure [OF False [unfolded displayRow_def]] assms show ?thesis
    by (simp add: displayRow_def)
qed

lemma renderPass_stored:
  "lastPredictionValues (fst (snd (renderPass rt F br fs (st, c)))) j \<noteq> lastPredictionValues st j
   \<Longrightarrow> truthy br \<and> \<not> absent (field (entryAt F j) ''prediction_value'')
     \<and> lastPredictionValues (fst (snd (renderPass rt F br fs (st, c)))) j
         = field (entryAt F j) ''prediction_value''"
proof (induction fs arbitrary: st c)
  case Nil
  then show ?case by simp
next
  case (Cons g gs)
  obtain e st1 c1 where rf: "renderFeature rt F br g (st, c) = (e, st1, c1)"
    by (cases "renderFeature rt F br g (st, c)")
  have so: "sameOutside {fid g} st st1"
    using renderFeature_sameOutside [of g st rt F br c] rf by simp
  have st1: "lastPredictionValues st1 j \<noteq> lastPredictionValues st j \<Longrightarrow>
     truthy br \<and> \<not> absent (field (entryAt F j) ''prediction_value'')
     \<and> lastPredictionValues st1 j = field (entryAt F j) ''prediction_value''"
  proof -
    assume ne: "lastPredictionValues st1 j \<noteq> lastPredictionValues st j"
    then have j: "j = fid g"
      using sameOutside_row [OF so, of j] by auto
    have "st1 = snd (displayRow rt st F br (fid g))"
      using rf ne
      by (cases "displayRow rt st F br (fid g)")
         (auto simp: renderFeature_eq split: if_splits option.splits)
    with ne j show ?thesis
      using displayRow_stored [of rt st F br j] by simp
  qed
  show ?case
  proof (cases e)
    case (Some x)
    with rf Cons.prems st1 show ?thesis by simp
  next
    case None
    then have final: "renderPass rt F br (g # gs) (st, c) = renderPass rt F br gs (st1, c1)"
      by (simp add: rf)
    show ?thesis
    proof (cases "lastPredictionValues (fst (snd (renderPass rt F br gs (st1, c1)))) j
                    = lastPredictionValues st1 j")
      case True
      with Cons.prems final st1 show ?thesis by simp
    next
      case False
      from Cons.IH [OF False] final show ?thesis by simp
    qed
  qed
qed


lemma saveFeature_eq:
  "saveFeature F f st =
     (if \<not> readable F (fid f) then (Some TypeError, st)
      else if \<not> absent (field (entryAt F (fid f)) ''current_value'')
      then (None, st\<lparr>lastValues := (lastValues st)
                      (fid f := field (entryAt F (fid f)) ''current_value'')\<rparr>)
      else (None, st))"
proof (cases "readable F (fid f)")
  case True
  note r = readable_getIndex [OF True]
  show ?thesis
    using True r by (simp add: saveFeature_def getProp_field absent_def)
next
  case False
  from not_readable_getIndex [OF False] show ?thesis
    using False by (auto simp: saveFeature_def getProp_absent)
qed

text \<open>
  The second loop, when every entry can be read, stores exactly the current values that
  are not absent.
\<close>

lemma savePass_eq:
  assumes "\<forall>f\<in>set fs. readable F (fid f)"
  shows "savePass F fs st =
           (None, st\<lparr>lastValues := (\<lambda>j.
              if j \<in> fid ` set fs \<and> \<not> absent (field (entryAt F j) ''current_value'')
              then field (entryAt F j) ''current_value'' else lastValues st j)\<rparr>)"
  using assms
proof (induction fs arbitrary: st)
  case Nil
  show ?case by simp
next
  case (Cons f fs)
  have r: "readable F (fid f)" and rs: "\<forall>g\<in>set fs. readable F (fid g)"
    using Cons.prems by simp_all
  show ?case
  proof (cases "absent (field (entryAt F (fid f)) ''current_value'')")
    case True
    have "savePass F (f # fs) st = savePass F fs st"
      using r True by (simp add: saveFeature_eq)
    also have "\<dots> = (None, st\<lparr>lastValues := (\<lambda>j.
              if j \<in> fid ` set fs \<and> \<not> absent (field (entryAt F j) ''current_value'')
              then field (entryAt F j) ''current_value'' else lastValues st j)\<rparr>)"
      by (rule Cons.IH [OF rs])
    also have "(\<lambda>j. if j \<in> fid ` set fs \<and> \<not> absent (field (entryAt F j) ''current_value'')
              then field (entryAt F j) ''current_value'' else lastValues st j)
        = (\<lambda>j. if j \<in> fid ` set (f # fs) \<and> \<not> absent (field (entryAt F j) ''current_value'')
              then field (entryAt F j) ''current_value'' else lastValues st j)"
      using True by (auto simp: fun_eq_iff)
    finally show ?thesis .
  next
    case False
    let ?st1 = "st\<lparr>lastValues := (lastValues st)
                      (fid f := field (entryAt F (fid f)) ''current_value'')\<rparr>"
    have "savePass F (f # fs) st = savePass F fs ?st1"
      using r False by (simp add: saveFeature_eq)
    also have "\<dots> = (None, ?st1\<lparr>lastValues := (\<lambda>j.
              if j \<in> fid ` set fs \<and> \<not> absent (field (entryAt F j) ''current_value'')
              then field (entryAt F j) ''current_value'' else lastValues ?st1 j)\<rparr>)"
      by (rule Cons.IH [OF rs])
    also have "(\<lambda>j. if j \<in> fid ` set fs \<and> \<not> absent (field (entryAt F j) ''current_value'')
              then field (entryAt F j) ''current_value'' else lastValues ?st1 j)
        = (\<lambda>j. if j \<in> fid ` set (f # fs) \<and> \<not> absent (field (entryAt F j) ''current_value'')
              then field (entryAt F j) ''current_value'' else lastValues st j)"
      using False by (auto simp: fun_eq_iff)
    finally show ?thesis by simp
  qed
qed

section \<open>One cycle\<close>

lemma FEATURE_CONFIG_ids: "map fid FEATURE_CONFIG = [1..<32]"
  by (simp add: FEATURE_CONFIG_def upt_rec)

lemma FEATURE_CONFIG_distinct: "distinct (map fid FEATURE_CONFIG)"
  by (simp add: FEATURE_CONFIG_ids)

lemma FEATURE_CONFIG_set: "fid ` set FEATURE_CONFIG = {1..31}"
proof -
  have "fid ` set FEATURE_CONFIG = set (map fid FEATURE_CONFIG)" by simp
  also have "\<dots> = {1..<32}" by (simp only: FEATURE_CONFIG_ids set_upt)
  also have "\<dots> = {1..31}" by auto
  finally show ?thesis .
qed

lemma FEATURE_CONFIG_mem: "1 \<le> i \<Longrightarrow> i \<le> 31 \<Longrightarrow> \<exists>f\<in>set FEATURE_CONFIG. fid f = i"
  using FEATURE_CONFIG_set by (metis atLeastAtMost_iff imageE)

text \<open>The format guard: a batch that is falsy or has no features leaves everything as it was.\<close>

lemma updateData_guard:
  "\<not> truthy dat \<or> \<not> truthy (featuresOf dat) \<Longrightarrow> updateData rt st dat = (None, st)"
  by (cases dat)
     (auto simp: updateData_def featuresOf_def valueOr_def getProp_def truthy_def
           split: option.splits)

lemma guard_entry:
  "\<not> truthy dat \<or> \<not> truthy (featuresOf dat) \<Longrightarrow> entryOf dat i = JUndefined"
proof -
  assume "\<not> truthy dat \<or> \<not> truthy (featuresOf dat)"
  then have "\<not> truthy (featuresOf dat)"
    by (cases dat) (auto simp: featuresOf_def valueOr_def getProp_def truthy_def)
  then show ?thesis
    by (cases "featuresOf dat")
       (auto simp: entryOf_def entryAt_def valueOr_def getIndex_def truthy_def)
qed

lemma guard_absent:
  assumes "\<not> truthy dat \<or> \<not> truthy (featuresOf dat)"
  shows "currentValueOf dat i = JUndefined" and "predictionValueOf dat i = JUndefined"
  using guard_entry [OF assms, of i]
  by (simp_all add: currentValueOf_def predictionValueOf_def field_def valueOr_def getProp_def)

text \<open>
  Past the guard, a cycle is its first loop and, if that ran to its end, the stored current
  values and the closing updates of the page.
\<close>

lemma updateData_run:
  assumes "truthy dat" and "truthy (featuresOf dat)"
  shows "updateData rt st dat =
     (case renderPass rt (featuresOf dat) (bufferReadyOf dat) FEATURE_CONFIG
             (st, \<lparr>validCount = 0, missingCount = 0, predictedCount = 0\<rparr>)
      of (Some e, st1, c) \<Rightarrow> (Some e, st1)
       | (None, st1, c) \<Rightarrow>
           (closing dat, afterLoops dat c (st1\<lparr>lastValues := (\<lambda>j.
              if j \<in> {1..31} \<and> \<not> absent (currentValueOf dat j)
              then currentValueOf dat j else lastValues st1 j)\<rparr>)))"
proof -
  have d: "dat \<noteq> JNull" "dat \<noteq> JUndefined"
    using truthy_defined [OF assms(1)] by simp_all
  have gp: "getProp dat key = Inr (field dat key)" for key
    using getProp_field [OF d] .
  have ff: "field dat ''features'' = featuresOf dat"
    by (simp add: field_def featuresOf_def)
  have br: "js_or (field dat ''buffer_ready'') (JBool False) = bufferReadyOf dat"
    by (simp add: field_def bufferReadyOf_def)
  have sc: "js_or (field dat ''step_count'') (JNum (Fin 0)) = stepCountOf dat"
    by (simp add: stepCountOf_def)
  obtain e st1 c where rp: "renderPass rt (featuresOf dat) (bufferReadyOf dat) FEATURE_CONFIG
             (st, \<lparr>validCount = 0, missingCount = 0, predictedCount = 0\<rparr>) = (e, st1, c)"
    by (metis prod_cases3)
  show ?thesis
  proof (cases e)
    case (Some x)
    then show ?thesis
      using assms by (simp add: updateData_def gp ff br rp Let_def)
  next
    case None
    have "\<forall>f\<in>set FEATURE_CONFIG. readable (featuresOf dat) (fid f)"
      using renderPass_readable [of rt "featuresOf dat" "bufferReadyOf dat" FEATURE_CONFIG st
          "\<lparr>validCount = 0, missingCount = 0, predictedCount = 0\<rparr>"] rp None
      by simp
    note sp = savePass_eq [OF this, of st1]
    show ?thesis
      unfolding currentValueOf_def entryOf_def
      using assms
      by (simp add: updateData_def gp ff br sc rp None Let_def sp FEATURE_CONFIG_set
          afterLoops_def closing_def stepInfoThrows_def updateStepInfo_def)
  qed
qed


lemma afterLoops_frame [simp]:
  "lastValues (afterLoops dat c st) = lastValues st"
  "lastPredictionValues (afterLoops dat c st) = lastPredictionValues st"
  "rowOf (afterLoops dat c st) i = rowOf st i"
  "isRunning (afterLoops dat c st) = isRunning st"
  "updateInterval (afterLoops dat c st) = updateInterval st"
  "paused (afterLoops dat c st) = paused st"
  by (simp_all add: afterLoops_def updateStepInfo_def updateTBMStatusFromBackend_def
      updateStats_def rowOf_def)

lemma closing_None [simp]: "(closing dat = None) = (\<not> stepInfoThrows dat)"
  by (simp add: closing_def)

lemma rowOf_lastValues_update [simp]: "rowOf (st\<lparr>lastValues := f\<rparr>) i = rowOf st i"
  by (simp add: rowOf_def)

text \<open>The pieces of a cycle that got past the guard.\<close>

lemma updateData_cases:
  assumes "truthy dat" and "truthy (featuresOf dat)"
  obtains (threw) e st1 c where
      "renderPass rt (featuresOf dat) (bufferReadyOf dat) FEATURE_CONFIG
         (st, \<lparr>validCount = 0, missingCount = 0, predictedCount = 0\<rparr>) = (Some e, st1, c)"
      "updateData rt st dat = (Some e, st1)"
      "sameOutside {1..31} st st1"
    | (ran) st1 c where
      "renderPass rt (featuresOf dat) (bufferReadyOf dat) FEATURE_CONFIG
         (st, \<lparr>validCount = 0, missingCount = 0, predictedCount = 0\<rparr>) = (None, st1, c)"
      "updateData rt st dat =
         (closing dat, afterLoops dat c (st1\<lparr>lastValues := (\<lambda>j.
              if j \<in> {1..31} \<and> \<not> absent (currentValueOf dat j)
              then currentValueOf dat j else lastValues st1 j)\<rparr>))"
      "sameOutside {1..31} st st1"
proof -
  obtain e st1 c where rp: "renderPass rt (featuresOf dat) (bufferReadyOf dat) FEATURE_CONFIG
             (st, \<lparr>validCount = 0, missingCount = 0, predictedCount = 0\<rparr>) = (e, st1, c)"
    by (metis prod_cases3)
  have so: "sameOutside {1..31} st st1"
    using renderPass_sameOutside [of FEATURE_CONFIG st rt "featuresOf dat" "bufferReadyOf dat"
        "\<lparr>validCount = 0, missingCount = 0, predictedCount = 0\<rparr>"] rp
    by (simp add: FEATURE_CONFIG_set)
  show thesis
  proof (cases e)
    case None
    show thesis
    proof (rule ran)
      show "renderPass rt (featuresOf dat) (bufferReadyOf dat) FEATURE_CONFIG
         (st, \<lparr>validCount = 0, missingCount = 0, predictedCount = 0\<rparr>) = (None, st1, c)"
        using rp None by simp
      show "updateData rt st dat =
         (closing dat, afterLoops dat c (st1\<lparr>lastValues := (\<lambda>j.
              if j \<in> {1..31} \<and> \<not> absent (currentValueOf dat j)
              then currentValueOf dat j else lastValues st1 j)\<rparr>))"
        by (simp add: updateData_run [OF assms] rp None)
      show "sameOutside {1..31} st st1" by (rule so)
    qed
  next
    case (Some x)
    show thesis
    proof (rule threw)
      show "renderPass rt (featuresOf dat) (bufferReadyOf dat) FEATURE_CONFIG
         (st, \<lparr>validCount = 0, missingCount = 0, predictedCount = 0\<rparr>) = (Some x, st1, c)"
        using rp Some by simp
      show "updateData rt st dat = (Some x, st1)"
        by (simp add: updateData_run [OF assms] rp Some)
      show "sameOutside {1..31} st st1" by (rule so)
    qed
  qed
qed


text \<open>A cycle that returns has stored exactly the current values that are not absent.\<close>

lemma updateData_lastValues:
  assumes "fst (updateData rt st dat) = None"
  shows "lastValues (snd (updateData rt st dat)) j =
           (if j \<in> {1..31} \<and> \<not> absent (currentValueOf dat j)
            then currentValueOf dat j else lastValues st j)"
proof (cases "truthy dat \<and> truthy (featuresOf dat)")
  case False
  then have g: "\<not> truthy dat \<or> \<not> truthy (featuresOf dat)" by simp
  show ?thesis
    by (simp add: updateData_guard [OF g] guard_absent [OF g] absent_def)
next
  case True
  then have t: "truthy dat" "truthy (featuresOf dat)" by simp_all
  show ?thesis
  using t
  proof (cases rule: updateData_cases [where rt = rt and st = st and dat = dat])
    case (threw e st1 c)
    with assms show ?thesis by simp
  next
    case (ran st1 c)
    then show ?thesis by (simp add: sameOutside_lastValues)
  qed
qed

text \<open>
  In a cycle that reconciles its batch, each row is the one the feature's call produces on
  the state the cycle started from.
\<close>

lemma updateData_row:
  assumes "reconciles rt st dat" and "1 \<le> i" and "i \<le> 31"
  shows "fst (displayRow rt st (featuresOf dat) (bufferReadyOf dat) i) = None"
    and "rowOf (snd (updateData rt st dat)) i =
           rowOf (snd (displayRow rt st (featuresOf dat) (bufferReadyOf dat) i)) i"
    and "lastPredictionValues (snd (updateData rt st dat)) i =
           lastPredictionValues (snd (displayRow rt st (featuresOf dat) (bufferReadyOf dat) i)) i"
    and "readable (featuresOf dat) i"
proof -
  from assms(1) have t: "truthy dat" "truthy (featuresOf dat)"
    and ok: "fst (updateData rt st dat) = None"
    by (simp_all add: reconciles_def)
  obtain f where f: "f \<in> set FEATURE_CONFIG" "fid f = i"
    using FEATURE_CONFIG_mem [OF assms(2,3)] by auto
  have "fst (displayRow rt st (featuresOf dat) (bufferReadyOf dat) i) = None
      \<and> rowOf (snd (updateData rt st dat)) i =
           rowOf (snd (displayRow rt st (featuresOf dat) (bufferReadyOf dat) i)) i
      \<and> lastPredictionValues (snd (updateData rt st dat)) i =
           lastPredictionValues (snd (displayRow rt st (featuresOf dat) (bufferReadyOf dat) i)) i
      \<and> readable (featuresOf dat) i"
  using t
  proof (cases rule: updateData_cases [where rt = rt and st = st and dat = dat])
    case (threw e st1 c)
    with ok show ?thesis by simp
  next
    case (ran st1 c)
    have rp: "fst (renderPass rt (featuresOf dat) (bufferReadyOf dat) FEATURE_CONFIG
         (st, \<lparr>validCount = 0, missingCount = 0, predictedCount = 0\<rparr>)) = None"
      by (simp add: ran(1))
    from renderPass_row [OF rp FEATURE_CONFIG_distinct f(1)]
      renderPass_readable [OF rp f(1)]
    show ?thesis
      by (simp add: f(2) ran(1,2))
  qed
  then show "fst (displayRow rt st (featuresOf dat) (bufferReadyOf dat) i) = None"
    and "rowOf (snd (updateData rt st dat)) i =
           rowOf (snd (displayRow rt st (featuresOf dat) (bufferReadyOf dat) i)) i"
    and "lastPredictionValues (snd (updateData rt st dat)) i =
           lastPredictionValues (snd (displayRow rt st (featuresOf dat) (bufferReadyOf dat) i)) i"
    and "readable (featuresOf dat) i"
    by simp_all
qed

lemma displayRow_args:
  "field (entryAt (featuresOf dat) i) ''current_value'' = currentValueOf dat i"
  "field (entryAt (featuresOf dat) i) ''current_source'' = currentSourceOf dat i"
  "field (entryAt (featuresOf dat) i) ''prediction_value'' = predictionValueOf dat i"
  by (simp_all add: currentValueOf_def currentSourceOf_def predictionValueOf_def entryOf_def)

text \<open>The cells of a reconciled row, one by one.\<close>

lemma updateData_cells:
  assumes "reconciles rt st dat" and "1 \<le> i" and "i \<le> 31"
  shows "tPredictionCell (snd (updateData rt st dat)) i =
           tPredictionCell_spec (lastPredictionValues st i)"
    and "valueCell (snd (updateData rt st dat)) i =
           valueCell_spec (currentValueOf dat i) (statusOf (currentValueOf dat i))
             (currentSourceOf dat i)"
    and "changeCell (snd (updateData rt st dat)) i =
           changeCell (snd (updateChangeValueWithoutSaving rt st i (currentValueOf dat i))) i"
    and "predictionCell (snd (updateData rt st dat)) i =
           predictionCell_spec (predictionValueOf dat i) (bufferReadyOf dat)"
    and "lastPredictionValues (snd (updateData rt st dat)) i =
           (if \<not> absent (predictionValueOf dat i) \<and> truthy (bufferReadyOf dat)
            then predictionValueOf dat i else lastPredictionValues st i)"
    and "fst (updateChangeValueWithoutSaving rt st i (currentValueOf dat i)) = None"
proof -
  note r = updateData_row [OF assms]
  note s = ufd_success [OF r(1) [unfolded displayRow_def], folded displayRow_def,
      unfolded displayRow_args]
  from r(2) have c: "tPredictionCell (snd (updateData rt st dat)) i =
        tPredictionCell (snd (displayRow rt st (featuresOf dat) (bufferReadyOf dat) i)) i"
    "valueCell (snd (updateData rt st dat)) i =
        valueCell (snd (displayRow rt st (featuresOf dat) (bufferReadyOf dat) i)) i"
    "changeCell (snd (updateData rt st dat)) i =
        changeCell (snd (displayRow rt st (featuresOf dat) (bufferReadyOf dat) i)) i"
    "predictionCell (snd (updateData rt st dat)) i =
        predictionCell (snd (displayRow rt st (featuresOf dat) (bufferReadyOf dat) i)) i"
    by (simp_all add: rowOf_def)
  show "tPredictionCell (snd (updateData rt st dat)) i =
           tPredictionCell_spec (lastPredictionValues st i)"
    using c(1) s(1) by simp
  show "valueCell (snd (updateData rt st dat)) i =
           valueCell_spec (currentValueOf dat i) (statusOf (currentValueOf dat i))
             (currentSourceOf dat i)"
    using c(2) s(2) by simp
  show "changeCell (snd (updateData rt st dat)) i =
           changeCell (snd (updateChangeValueWithoutSaving rt st i (currentValueOf dat i))) i"
    using c(3) s(3) by simp
  show "predictionCell (snd (updateData rt st dat)) i =
           predictionCell_spec (predictionValueOf dat i) (bufferReadyOf dat)"
    using c(4) s(4) by simp
  show "lastPredictionValues (snd (updateData rt st dat)) i =
           (if \<not> absent (predictionValueOf dat i) \<and> truthy (bufferReadyOf dat)
            then predictionValueOf dat i else lastPredictionValues st i)"
    using r(3) s(5) by simp
  show "fst (updateChangeValueWithoutSaving rt st i (currentValueOf dat i)) = None"
    using s(6) .
qed

text \<open>Whatever its outcome, a cycle stores a prediction only from a ready batch that has one.\<close>

lemma updateData_stored:
  assumes "lastPredictionValues (snd (updateData rt st dat)) j \<noteq> lastPredictionValues st j"
  shows "truthy (bufferReadyOf dat) \<and> \<not> absent (predictionValueOf dat j)
     \<and> lastPredictionValues (snd (updateData rt st dat)) j = predictionValueOf dat j"
proof (cases "truthy dat \<and> truthy (featuresOf dat)")
  case False
  with assms show ?thesis using updateData_guard [of dat rt st] by auto
next
  case True
  then have t: "truthy dat" "truthy (featuresOf dat)" by simp_all
  have "lastPredictionValues (snd (updateData rt st dat)) =
        lastPredictionValues (fst (snd (renderPass rt (featuresOf dat) (bufferReadyOf dat)
           FEATURE_CONFIG (st, \<lparr>validCount = 0, missingCount = 0, predictedCount = 0\<rparr>))))"
    using t by (cases rule: updateData_cases [where rt = rt and st = st and dat = dat]) simp_all
  with assms renderPass_stored [of rt "featuresOf dat" "bufferReadyOf dat" FEATURE_CONFIG st
      "\<lparr>validCount = 0, missingCount = 0, predictedCount = 0\<rparr>" j]
  show ?thesis
    by (simp add: displayRow_args)
qed

text \<open>A cycle that returns has stored exactly the predictions that were ready.\<close>

lemma updateData_prediction:
  assumes "fst (updateData rt st dat) = None"
  shows "lastPredictionValues (snd (updateData rt st dat)) j =
           (if j \<in> {1..31} \<and> \<not> absent (readyPrediction dat j)
            then readyPrediction dat j else lastPredictionValues st j)"
proof (cases "truthy dat \<and> truthy (featuresOf dat)")
  case False
  then have g: "\<not> truthy dat \<or> \<not> truthy (featuresOf dat)" by simp
  show ?thesis
    by (simp add: updateData_guard [OF g] guard_absent [OF g] absent_def readyPrediction_def)
next
  case True
  then have rec: "reconciles rt st dat"
    using assms by (simp add: reconciles_def)
  show ?thesis
  proof (cases "j \<in> {1..31}")
    case True
    then have "1 \<le> j" "j \<le> 31" by simp_all
    from updateData_cells(5) [OF rec this] True show ?thesis
      by (simp add: readyPrediction_def absent_def)
  next
    case False
    have "lastPredictionValues (snd (updateData rt st dat)) j = lastPredictionValues st j"
      using \<open>truthy dat \<and> truthy (featuresOf dat)\<close>
    proof -
      from \<open>truthy dat \<and> truthy (featuresOf dat)\<close>
      have t: "truthy dat" "truthy (featuresOf dat)" by simp_all
      from t show ?thesis
        by (cases rule: updateData_cases [where rt = rt and st = st and dat = dat])
           (use False in \<open>simp_all add: sameOutside_row\<close>)
    qed
    with False show ?thesis by auto
  qed
qed


section \<open>Well-formed batches run to the end\<close>

lemma ucv_fst:
  "\<not> toStringThrows cv \<Longrightarrow> \<not> toStringThrows (lastValues st i) \<Longrightarrow>
     fst (updateChangeValueWithoutSaving rt st i cv) = None"
  by (simp add: updateChangeValueWithoutSaving_def js_minus_def Let_def formatValue_spec_eq)

lemma ufd_fst:
  "fst (updateFeatureDisplayWithoutSaving rt st i cv s src pv br) =
     fst (updateChangeValueWithoutSaving rt st i cv)"
proof -
  let ?st2 = "st\<lparr>tPredictionCell := (tPredictionCell st)
                    (i := tPredictionCell_spec (lastPredictionValues st i)),
                  valueCell := (valueCell st)(i := valueCell_spec cv s src)\<rparr>"
  have "fst (updateFeatureDisplayWithoutSaving rt st i cv s src pv br) =
          fst (updateChangeValueWithoutSaving rt ?st2 i cv)"
    by (cases "updateChangeValueWithoutSaving rt ?st2 i cv")
       (auto simp: ufd_eq split: option.splits)
  also have "\<dots> = fst (updateChangeValueWithoutSaving rt st i cv)"
    by (rule ucv_dep(1)) simp
  finally show ?thesis .
qed

lemma renderPass_completes:
  assumes "\<forall>f\<in>set fs. readable F (fid f)
             \<and> \<not> toStringThrows (field (entryAt F (fid f)) ''current_value'')"
    and "\<forall>f\<in>set fs. \<not> toStringThrows (lastValues st (fid f))"
  shows "fst (renderPass rt F br fs (st, c)) = None"
  using assms
proof (induction fs arbitrary: st c)
  case Nil
  show ?case by simp
next
  case (Cons g gs)
  have rd: "readable F (fid g)"
    and cv: "\<not> toStringThrows (field (entryAt F (fid g)) ''current_value'')"
    and lv: "\<not> toStringThrows (lastValues st (fid g))"
    using Cons.prems by simp_all
  have ok: "fst (displayRow rt st F br (fid g)) = None"
    unfolding displayRow_def ufd_fst by (rule ucv_fst [OF cv lv])
  obtain st1 where d: "displayRow rt st F br (fid g) = (None, st1)"
    using ok by (cases "displayRow rt st F br (fid g)") simp
  have so: "sameOutside {fid g} st st1"
    using displayRow_sameOutside [of "fid g" st rt F br] d by simp
  have lv1: "\<forall>f\<in>set gs. \<not> toStringThrows (lastValues st1 (fid f))"
    using Cons.prems(2) sameOutside_lastValues [OF so] by simp
  have rest: "\<forall>f\<in>set gs. readable F (fid f)
             \<and> \<not> toStringThrows (field (entryAt F (fid f)) ''current_value'')"
    using Cons.prems(1) by simp
  show ?case
    using rd d Cons.IH [OF rest lv1] by (simp add: renderFeature_eq)
qed

text \<open>
  A well-formed batch met in a convertible state is reconciled: the cycle returns, and the
  state it leaves is convertible again.
\<close>

lemma updateData_completes:
  assumes "wellFormed dat" and "convertible st"
  shows "reconciles rt st dat" and "convertible (snd (updateData rt st dat))"
proof -
  from assms(1) have t: "truthy dat" "truthy (featuresOf dat)"
    and ns: "\<not> stepInfoThrows dat"
    and wf: "\<forall>i\<in>{1..31}. readable (featuresOf dat) i \<and> \<not> toStringThrows (currentValueOf dat i)"
    by (simp_all add: wellFormed_def)
  have a: "\<forall>f\<in>set FEATURE_CONFIG. readable (featuresOf dat) (fid f)
             \<and> \<not> toStringThrows (field (entryAt (featuresOf dat) (fid f)) ''current_value'')"
    using wf FEATURE_CONFIG_set by (auto simp: displayRow_args)
  have b: "\<forall>f\<in>set FEATURE_CONFIG. \<not> toStringThrows (lastValues st (fid f))"
    using assms(2) FEATURE_CONFIG_set by (auto simp: convertible_def)
  note rp = renderPass_completes [OF a b, of rt "bufferReadyOf dat"
      "\<lparr>validCount = 0, missingCount = 0, predictedCount = 0\<rparr>"]
  have ok: "fst (updateData rt st dat) = None"
    using t
    by (cases rule: updateData_cases [where rt = rt and st = st and dat = dat])
       (use rp ns in simp_all)
  then show "reconciles rt st dat"
    using t by (simp add: reconciles_def)
  show "convertible (snd (updateData rt st dat))"
    unfolding convertible_def
  proof
    fix i :: nat
    assume i: "i \<in> {1..31}"
    show "\<not> toStringThrows (lastValues (snd (updateData rt st dat)) i)"
      using updateData_lastValues [OF ok, of i] wf assms(2) i
      by (auto simp: convertible_def)
  qed
qed

section \<open>Runs of cycles\<close>

lemma runCycles_Nil [simp]: "runCycles rt st [] = st"
  by (simp add: runCycles_def)

lemma runCycles_Cons [simp]:
  "runCycles rt st (d # ds) = runCycles rt (snd (updateData rt st d)) ds"
  by (simp add: runCycles_def)

lemma runCycles_append:
  "runCycles rt st (ds @ es) = runCycles rt (runCycles rt st ds) es"
  by (simp add: runCycles_def)

lemma cyclesComplete_append:
  "cyclesComplete rt st (ds @ es) \<longleftrightarrow>
     cyclesComplete rt st ds \<and> cyclesComplete rt (runCycles rt st ds) es"
  by (induction ds arbitrary: st) auto

lemma wellFormed_cyclesComplete:
  "\<forall>d\<in>set ds. wellFormed d \<Longrightarrow> convertible st \<Longrightarrow>
     cyclesComplete rt st ds \<and> convertible (runCycles rt st ds)"
proof (induction ds arbitrary: st)
  case Nil
  then show ?case by simp
next
  case (Cons d ds)
  then have wf: "wellFormed d" and rest: "\<forall>d\<in>set ds. wellFormed d" by simp_all
  note c = updateData_completes [OF wf Cons.prems(2), of rt]
  from c(1) Cons.IH [OF rest c(2)] show ?case
    by (simp add: reconciles_def)
qed

lemma mostRecent_append: "mostRecent k (xs @ ys) = mostRecent (mostRecent k xs) ys"
  by (induction xs arbitrary: k) simp_all

lemma mostRecent_absent: "\<forall>v\<in>set vs. absent v \<Longrightarrow> mostRecent k vs = k"
  by (induction vs arbitrary: k) simp_all

text \<open>After a complete run, the last value of a feature is the most recent one that was not absent.\<close>

lemma runCycles_lastValues:
  assumes "cyclesComplete rt st ds" and "1 \<le> i" and "i \<le> 31"
  shows "lastValues (runCycles rt st ds) i =
           mostRecent (lastValues st i) (map (\<lambda>d. currentValueOf d i) ds)"
  using assms(1)
proof (induction ds arbitrary: st)
  case Nil
  show ?case by simp
next
  case (Cons d ds)
  then have ok: "fst (updateData rt st d) = None"
    and rest: "cyclesComplete rt (snd (updateData rt st d)) ds"
    by simp_all
  show ?case
    using Cons.IH [OF rest] updateData_lastValues [OF ok, of i] assms(2,3)
    by simp
qed

text \<open>Likewise the stored prediction is the most recent one that was ready.\<close>

lemma runCycles_predictions:
  assumes "cyclesComplete rt st ds" and "1 \<le> i" and "i \<le> 31"
  shows "lastPredictionValues (runCycles rt st ds) i =
           mostRecent (lastPredictionValues st i) (map (\<lambda>d. readyPrediction d i) ds)"
  using assms(1)
proof (induction ds arbitrary: st)
  case Nil
  show ?case by simp
next
  case (Cons d ds)
  then have ok: "fst (updateData rt st d) = None"
    and rest: "cyclesComplete rt (snd (updateData rt st d)) ds"
    by simp_all
  show ?case
    using Cons.IH [OF rest] updateData_prediction [OF ok, of i] assms(2,3)
    by simp
qed

section \<open>The sample batches\<close>

lemma batch_simps [simp]:
  "truthy (batch fs n ready)"
  "featuresOf (batch fs n ready) = JArr fs"
  "bufferReadyOf (batch fs n ready) = JBool ready"
  "truthy (JArr fs)"
  by (simp_all add: batch_def truthy_def featuresOf_def bufferReadyOf_def getProp_def
      valueOr_def js_or_def)

lemma batch_step [simp]:
  "\<not> stepInfoThrows (batch fs n ready)"
  "\<not> stepInfoThrows (batchN len cv pv n ready)"
  "\<not> stepInfoThrows (batch1 cv pv n ready)"
  by (simp_all add: stepInfoThrows_def stepCountOf_def batch_def batchN_def batch1_def
      field_def getProp_def valueOr_def js_or_def)

lemma field_entry [simp]:
  "field (entry cv pv) ''current_value'' = cv"
  "field (entry cv pv) ''current_source'' = JStr ''api''"
  "field (entry cv pv) ''prediction_value'' = pv"
  "entry cv pv \<noteq> JNull" "entry cv pv \<noteq> JUndefined"
  by (simp_all add: entry_def field_def getProp_def valueOr_def)

lemma entryAt_first_rest:
  assumes "1 \<le> i" and "i \<le> Suc m"
  shows "getIndex (JArr (x # replicate m y)) (i - 1) = Inr (if i = 1 then x else y)"
proof (cases "i = 1")
  case True
  then show ?thesis by (simp add: getIndex_def)
next
  case False
  with assms obtain k where k: "i - 1 = Suc k" "k < m"
    by (cases "i - 1") auto
  with False show ?thesis by (simp add: getIndex_def del: replicate_numeral)
qed

lemma batchN_reads:
  assumes "1 \<le> i" and "i \<le> len"
  shows "currentValueOf (batchN len cv pv n ready) i = (if i = 1 then cv else JNull)"
    and "predictionValueOf (batchN len cv pv n ready) i = (if i = 1 then pv else JNull)"
    and "currentSourceOf (batchN len cv pv n ready) i = JStr ''api''"
    and "readable (featuresOf (batchN len cv pv n ready)) i"
proof -
  have "i \<le> Suc (len - 1)" using assms by simp
  from entryAt_first_rest [OF assms(1) this, of "entry cv pv" "entry JNull JNull"]
  show "currentValueOf (batchN len cv pv n ready) i = (if i = 1 then cv else JNull)"
    and "predictionValueOf (batchN len cv pv n ready) i = (if i = 1 then pv else JNull)"
    and "currentSourceOf (batchN len cv pv n ready) i = JStr ''api''"
    and "readable (featuresOf (batchN len cv pv n ready)) i"
    by (simp_all add: currentValueOf_def predictionValueOf_def currentSourceOf_def entryOf_def
        entryAt_def batchN_def readable_def valueOr_def)
qed

lemma batch1_batchN: "batch1 cv pv n ready = batchN 31 cv pv n ready"
  by (simp add: batch1_def batchN_def del: replicate_numeral)

lemma batch1_reads:
  assumes "1 \<le> i" and "i \<le> 31"
  shows "currentValueOf (batch1 cv pv n ready) i = (if i = 1 then cv else JNull)"
    and "predictionValueOf (batch1 cv pv n ready) i = (if i = 1 then pv else JNull)"
    and "readable (featuresOf (batch1 cv pv n ready)) i"
  unfolding batch1_batchN by (rule batchN_reads [OF assms])+

lemma batchN_simps [simp]:
  "truthy (batchN len cv pv n ready)"
  "truthy (featuresOf (batchN len cv pv n ready))"
  "bufferReadyOf (batchN len cv pv n ready) = JBool ready"
  "featuresOf (batchN len cv pv n ready) = JArr (entry cv pv # replicate (len - 1) (entry JNull JNull))"
  by (simp_all add: batchN_def)


lemma batch1_simps [simp]:
  "truthy (batch1 cv pv n ready)"
  "truthy (featuresOf (batch1 cv pv n ready))"
  "bufferReadyOf (batch1 cv pv n ready) = JBool ready"
  by (simp_all add: batch1_def)

lemma wellFormed_batch1: "\<not> toStringThrows cv \<Longrightarrow> wellFormed (batch1 cv pv n ready)"
  by (simp add: wellFormed_def batch1_reads)

lemma constructed_simps [simp]:
  "lastValues (mon constructed) = (\<lambda>_. JUndefined)"
  "lastPredictionValues (mon constructed) = (\<lambda>_. JUndefined)"
  "inFlight constructed = 1"
  "updateInterval (mon constructed)"
  "\<not> paused (mon constructed)"
  by (simp_all add: constructed_def startMonitoring_def fetchData_issue_def updateStatus_def
      Let_def)

lemma convertible_constructed: "convertible (mon constructed)"
  by (simp add: convertible_def)


section \<open>The last seen value\<close>

text \<open>
  C1. Over any run of reconciliation cycles that return, and for each of the 31 features,
  a cycle sets \<open>lastValues[featureId]\<close> to the cycle's current value if that value is not
  absent and leaves it as it was if the value is absent; so after the run it holds the most
  recent current value that was not absent, and what it held before the run (\<open>undefined\<close>
  in a fresh monitor) if every value was absent.
\<close>

theorem lastValues_most_recent_present:
  assumes "cyclesComplete rt st (ds @ [d])" and "1 \<le> i" and "i \<le> 31"
  shows "lastValues (runCycles rt st (ds @ [d])) i =
           (if absent (currentValueOf d i) then lastValues (runCycles rt st ds) i
            else currentValueOf d i)
       \<and> lastValues (runCycles rt st (ds @ [d])) i =
           mostRecent (lastValues st i) (map (\<lambda>b. currentValueOf b i) (ds @ [d]))
       \<and> ((\<forall>b\<in>set (ds @ [d]). absent (currentValueOf b i)) \<longrightarrow>
            lastValues (runCycles rt st (ds @ [d])) i = lastValues st i)"
proof -
  from assms(1) have c: "cyclesComplete rt st ds"
    and ok: "fst (updateData rt (runCycles rt st ds) d) = None"
    by (simp_all add: cyclesComplete_append)
  have one: "lastValues (runCycles rt st (ds @ [d])) i =
           (if absent (currentValueOf d i) then lastValues (runCycles rt st ds) i
            else currentValueOf d i)"
    using updateData_lastValues [OF ok, of i] assms(2,3)
    by (simp add: runCycles_append)
  have run: "lastValues (runCycles rt st (ds @ [d])) i =
           mostRecent (lastValues st i) (map (\<lambda>b. currentValueOf b i) (ds @ [d]))"
    by (rule runCycles_lastValues [OF assms])
  have none: "(\<forall>b\<in>set (ds @ [d]). absent (currentValueOf b i)) \<longrightarrow>
            lastValues (runCycles rt st (ds @ [d])) i = lastValues st i"
  proof
    assume a: "\<forall>b\<in>set (ds @ [d]). absent (currentValueOf b i)"
    have "mostRecent (lastValues st i) (map (\<lambda>b. currentValueOf b i) (ds @ [d])) = lastValues st i"
      by (rule mostRecent_absent) (use a in auto)
    with run show "lastValues (runCycles rt st (ds @ [d])) i = lastValues st i"
      by simp
  qed
  from one run none show ?thesis by blast
qed

theorem lastValues_most_recent_present_witness:
  "cyclesComplete sampleEngine (mon constructed)
     ([batch1 (JNum (Fin 12.3)) JNull 1 False, batch1 JNull JNull 2 False]
        @ [batch1 JNull JNull 3 False])
   \<and> lastValues (runCycles sampleEngine (mon constructed)
        ([batch1 (JNum (Fin 12.3)) JNull 1 False, batch1 JNull JNull 2 False]
           @ [batch1 JNull JNull 3 False])) 1 = JNum (Fin 12.3)
   \<and> lastValues (runCycles sampleEngine (mon constructed)
        ([batch1 (JNum (Fin 12.3)) JNull 1 False, batch1 JNull JNull 2 False]
           @ [batch1 JNull JNull 3 False])) 2 = JUndefined"
proof -
  let ?ds = "[batch1 (JNum (Fin 12.3)) JNull 1 False, batch1 JNull JNull 2 False]"
  let ?d = "batch1 JNull JNull 3 False"
  have c: "cyclesComplete sampleEngine (mon constructed) (?ds @ [?d])"
    using wellFormed_cyclesComplete [of "?ds @ [?d]" "mon constructed" sampleEngine]
    by (simp add: wellFormed_batch1 convertible_constructed)
  have i1: "(1::nat) \<le> 1" "(1::nat) \<le> 31" and i2: "(1::nat) \<le> 2" "(2::nat) \<le> 31"
    by simp_all
  have "lastValues (runCycles sampleEngine (mon constructed) (?ds @ [?d])) 1 =
          mostRecent (lastValues (mon constructed) 1) (map (\<lambda>b. currentValueOf b 1) (?ds @ [?d]))"
    using lastValues_most_recent_present [OF c i1] by blast
  also have "\<dots> = JNum (Fin 12.3)"
    by (simp add: batch1_reads absent_def)
  finally have one: "lastValues (runCycles sampleEngine (mon constructed) (?ds @ [?d])) 1
      = JNum (Fin 12.3)" .
  have "lastValues (runCycles sampleEngine (mon constructed) (?ds @ [?d])) 2 =
          mostRecent (lastValues (mon constructed) 2) (map (\<lambda>b. currentValueOf b 2) (?ds @ [?d]))"
    using lastValues_most_recent_present [OF c i2] by blast
  also have "\<dots> = JUndefined"
    by (simp add: batch1_reads absent_def)
  finally have two: "lastValues (runCycles sampleEngine (mon constructed) (?ds @ [?d])) 2
      = JUndefined" .
  from c one two show ?thesis by blast
qed

section \<open>The change cell over cycles\<close>

lemma present_reconciles:
  assumes "fst (updateData rt st dat) = None" and "\<not> absent (currentValueOf dat i)"
  shows "reconciles rt st dat"
  using assms guard_absent(1) [of dat i]
  by (auto simp: reconciles_def absent_def)

lemma changeCell_numeric:
  assumes "reconciles rt st dat" and "1 \<le> i" and "i \<le> 31"
    and "currentValueOf dat i = JNum (Fin c)" and "lastValues st i = JNum (Fin l)"
  shows "changeCell (snd (updateData rt st dat)) i = changeCell_spec rt c l"
  using updateData_cells(3) [OF assms(1-3)] ucv_numeric [OF assms(5), of rt c]
  by (simp add: assms(4))

lemma changeCell_first:
  assumes "reconciles rt st dat" and "1 \<le> i" and "i \<le> 31"
    and "absent (lastValues st i)"
  shows "changeCell (snd (updateData rt st dat)) i =
           \<lparr>textContent = ''--'', className = ''change-value no-change''\<rparr>"
proof -
  have a: "lastValues st i = JUndefined \<or> lastValues st i = JNull"
    using assms(4) by (auto simp: absent_def)
  from updateData_cells(3,6) [OF assms(1-3)] ucv_first [OF a] show ?thesis
    by simp
qed

lemma changeCell_across_gap:
  assumes "cyclesComplete rt st (d1 # gap @ [d5])" and "1 \<le> i" and "i \<le> 31"
    and "currentValueOf d1 i = JNum (Fin v1)"
    and "\<forall>b\<in>set gap. absent (currentValueOf b i)"
    and "currentValueOf d5 i = JNum (Fin v2)"
  shows "changeCell (runCycles rt st (d1 # gap @ [d5])) i = changeCell_spec rt v2 v1"
proof -
  have split: "d1 # gap @ [d5] = (d1 # gap) @ [d5]" by simp
  from assms(1) have c: "cyclesComplete rt st (d1 # gap)"
    and ok: "fst (updateData rt (runCycles rt st (d1 # gap)) d5) = None"
    unfolding split cyclesComplete_append by simp_all
  have rec: "reconciles rt (runCycles rt st (d1 # gap)) d5"
    by (rule present_reconciles [OF ok, of i]) (simp add: assms(6) absent_def)
  have "lastValues (runCycles rt st (d1 # gap)) i =
          mostRecent (lastValues st i) (map (\<lambda>b. currentValueOf b i) (d1 # gap))"
    by (rule runCycles_lastValues [OF c assms(2,3)])
  also have "\<dots> = mostRecent (JNum (Fin v1)) (map (\<lambda>b. currentValueOf b i) gap)"
    by (simp add: assms(4) absent_def)
  also have "\<dots> = JNum (Fin v1)"
    by (rule mostRecent_absent) (use assms(5) in auto)
  finally have lv: "lastValues (runCycles rt st (d1 # gap)) i = JNum (Fin v1)" .
  have "changeCell (snd (updateData rt (runCycles rt st (d1 # gap)) d5)) i = changeCell_spec rt v2 v1"
    by (rule changeCell_numeric [OF rec assms(2,3,6) lv])
  then show ?thesis
    unfolding split runCycles_append by simp
qed

text \<open>
  Two instances of the change cell. From 2000 to 2003 the percentage is the binary64
  product \<open>0.0015 * 100\<close>, which lies below 0.15 and is written as \<open>0.1\<close>. From the
  binary64 value of \<open>0.000002\<close> to that of \<open>0.000102\<close> the rounded difference is the
  binary64 value of \<open>0.0001\<close>, which is not below the threshold.
\<close>

lemma changeCell_spec_examples:
  "changeCell_spec sampleEngine 2003 2000
     = \<lparr>textContent = ''+3.00 (+0.1%)'', className = ''change-value increase''\<rparr>"
  "changeCell_spec sampleEngine (7526271582073497 / 2 ^ 66) (4722366482869645 / 2 ^ 71)
     = \<lparr>textContent = ''+0.0001 (+5000.0%)'', className = ''change-value increase''\<rparr>"
  by (simp_all add: changeCell_spec_def formatValue_spec_def percentText_def toFixed_def
        js_sub_def js_neg_def js_abs_def js_gt_def round64_defs number_text_defs)

text \<open>
  C2. In a cycle that reconciles its batch, a feature whose current value is the number
  \<open>c\<close> and whose last known value is the number \<open>l\<close> gets the change cell of the
  specification: the change is \<open>c - l\<close>, its percentage is \<open>change / |l| * 100\<close> (both in
  the arithmetic of the program's numbers, each result rounded to binary64), the class is
  no-change below \<open>10^-4\<close> in magnitude and increase or decrease otherwise. With no last
  known value the cell shows \<open>--\<close>. Ticks whose value is absent are transparent: with
  \<open>v1\<close> in one cycle, absent values in any number of following cycles and then \<open>v2\<close>, the
  change shown is that of \<open>v2\<close> against \<open>v1\<close>.
\<close>

theorem change_against_last_known:
  assumes "1 \<le> i" and "i \<le> 31"
  shows "(reconciles rt st dat \<and> currentValueOf dat i = JNum (Fin c)
            \<and> lastValues st i = JNum (Fin l) \<longrightarrow>
          changeCell (snd (updateData rt st dat)) i = changeCell_spec rt c l)
       \<and> (reconciles rt st dat \<and> absent (lastValues st i) \<longrightarrow>
          changeCell (snd (updateData rt st dat)) i =
            \<lparr>textContent = ''--'', className = ''change-value no-change''\<rparr>)
       \<and> (cyclesComplete rt st (d1 # gap @ [d5]) \<and> currentValueOf d1 i = JNum (Fin v1)
            \<and> (\<forall>b\<in>set gap. absent (currentValueOf b i))
            \<and> currentValueOf d5 i = JNum (Fin v2) \<longrightarrow>
          changeCell (runCycles rt st (d1 # gap @ [d5])) i = changeCell_spec rt v2 v1)"
  using changeCell_numeric [OF _ assms] changeCell_first [OF _ assms]
    changeCell_across_gap [OF _ assms]
  by blast

theorem change_against_last_known_witness:
  "cyclesComplete sampleEngine (mon constructed)
     (batch1 (JNum (Fin 2000)) JNull 1 False
        # [batch1 JNull JNull 2 False, batch1 JNull JNull 3 False, batch1 JNull JNull 4 False]
        @ [batch1 (JNum (Fin 2003)) JNull 5 False])
   \<and> changeCell (runCycles sampleEngine (mon constructed)
        (batch1 (JNum (Fin 2000)) JNull 1 False
           # [batch1 JNull JNull 2 False, batch1 JNull JNull 3 False, batch1 JNull JNull 4 False]
           @ [batch1 (JNum (Fin 2003)) JNull 5 False])) 1
       = \<lparr>textContent = ''+3.00 (+0.1%)'', className = ''change-value increase''\<rparr>
   \<and> reconciles sampleEngine (mon constructed) (batch1 (JNum (Fin 2000)) JNull 1 False)
   \<and> changeCell (snd (updateData sampleEngine (mon constructed)
        (batch1 (JNum (Fin 2000)) JNull 1 False))) 1
       = \<lparr>textContent = ''--'', className = ''change-value no-change''\<rparr>"
proof -
  let ?d1 = "batch1 (JNum (Fin 2000)) JNull 1 False"
  let ?gap = "[batch1 JNull JNull 2 False, batch1 JNull JNull 3 False, batch1 JNull JNull 4 False]"
  let ?d5 = "batch1 (JNum (Fin 2003)) JNull 5 False"
  have c: "cyclesComplete sampleEngine (mon constructed) (?d1 # ?gap @ [?d5])"
    using wellFormed_cyclesComplete [of "?d1 # ?gap @ [?d5]" "mon constructed" sampleEngine]
    by (simp add: wellFormed_batch1 convertible_constructed)
  have r: "reconciles sampleEngine (mon constructed) ?d1"
    by (rule updateData_completes) (simp_all add: wellFormed_batch1 convertible_constructed)
  have v: "changeCell_spec sampleEngine 2003 2000 =
        \<lparr>textContent = ''+3.00 (+0.1%)'', className = ''change-value increase''\<rparr>"
    by (simp add: changeCell_spec_def formatValue_spec_def percentText_def toFixed_def
        js_sub_def js_neg_def js_abs_def js_gt_def round64_defs number_text_defs)
  have h1: "currentValueOf ?d1 1 = JNum (Fin 2000)"
    and h2: "\<forall>b\<in>set ?gap. absent (currentValueOf b 1)"
    and h3: "currentValueOf ?d5 1 = JNum (Fin 2003)"
    and h4: "absent (lastValues (mon constructed) 1)"
    by (simp_all add: batch1_reads absent_def)
  have i1: "(1::nat) \<le> 1" "(1::nat) \<le> 31"
    by simp_all
  note t = change_against_last_known [OF i1, of sampleEngine "mon constructed" ?d1 _ _
      ?d1 ?gap ?d5 2000 2003]
  have "changeCell (runCycles sampleEngine (mon constructed) (?d1 # ?gap @ [?d5])) 1
      = changeCell_spec sampleEngine 2003 2000"
    using t c h1 h2 h3 by blast
  then have a: "changeCell (runCycles sampleEngine (mon constructed) (?d1 # ?gap @ [?d5])) 1
      = \<lparr>textContent = ''+3.00 (+0.1%)'', className = ''change-value increase''\<rparr>"
    by (simp only: v)
  have b: "changeCell (snd (updateData sampleEngine (mon constructed) ?d1)) 1
       = \<lparr>textContent = ''--'', className = ''change-value no-change''\<rparr>"
    using t r h4 by blast
  from c a r b show ?thesis by blast
qed


section \<open>The t-time cell\<close>

text \<open>
  The t-time cell written by a cycle shows the prediction stored when the cycle began, and
  after a complete run that is the most recent prediction that was ready.
\<close>

lemma tPredictionCell_after_run:
  assumes "cyclesComplete rt st ds" and "reconciles rt (runCycles rt st ds) d"
    and "1 \<le> i" and "i \<le> 31"
  shows "tPredictionCell (runCycles rt st (ds @ [d])) i =
           tPredictionCell_spec (lastPredictionValues (runCycles rt st ds) i)"
    and "lastPredictionValues (runCycles rt st ds) i =
           mostRecent (lastPredictionValues st i) (map (\<lambda>b. readyPrediction b i) ds)"
proof -
  show "tPredictionCell (runCycles rt st (ds @ [d])) i =
           tPredictionCell_spec (lastPredictionValues (runCycles rt st ds) i)"
    using updateData_cells(1) [OF assms(2-4)] by (simp add: runCycles_append)
  show "lastPredictionValues (runCycles rt st ds) i =
           mostRecent (lastPredictionValues st i) (map (\<lambda>b. readyPrediction b i) ds)"
    by (rule runCycles_predictions [OF assms(1,3,4)])
qed

text \<open>
  C3, as amended. In the cycle of tick \<open>k\<close> (after a run of cycles that returned), the t-time
  cell of each feature shows, formatted by \<open>formatValue\<close>, the value that
  \<open>lastPredictionValues\<close> held for it when tick \<open>k - 1\<close> ended: the most recent next-step
  prediction recorded in any earlier tick, which is the one of tick \<open>k - 1\<close> only if that
  tick recorded one. It shows \<open>--\<close> if none was ever recorded. The prediction delivered
  in tick \<open>k\<close>'s own batch does not enter.
\<close>

theorem tPredictionCell_shows_stored_prediction:
  assumes "cyclesComplete rt st ds" and "reconciles rt (runCycles rt st ds) d"
    and "1 \<le> i" and "i \<le> 31"
  shows "tPredictionCell (runCycles rt st (ds @ [d])) i =
           tPredictionCell_spec (lastPredictionValues (runCycles rt st ds) i)
       \<and> lastPredictionValues (runCycles rt st ds) i =
           mostRecent (lastPredictionValues st i) (map (\<lambda>b. readyPrediction b i) ds)
       \<and> ((\<forall>b\<in>set ds. absent (readyPrediction b i)) \<and> lastPredictionValues st i = JUndefined \<longrightarrow>
            tPredictionCell (runCycles rt st (ds @ [d])) i =
              \<lparr>textContent = ''--'', className = ''data-value missing''\<rparr>)"
proof -
  note a = tPredictionCell_after_run [OF assms]
  have "(\<forall>b\<in>set ds. absent (readyPrediction b i)) \<and> lastPredictionValues st i = JUndefined \<longrightarrow>
            tPredictionCell (runCycles rt st (ds @ [d])) i =
              \<lparr>textContent = ''--'', className = ''data-value missing''\<rparr>"
  proof
    assume h: "(\<forall>b\<in>set ds. absent (readyPrediction b i)) \<and> lastPredictionValues st i = JUndefined"
    then have "mostRecent (lastPredictionValues st i) (map (\<lambda>b. readyPrediction b i) ds)
        = lastPredictionValues st i"
      by (intro mostRecent_absent) auto
    with a h show "tPredictionCell (runCycles rt st (ds @ [d])) i =
              \<lparr>textContent = ''--'', className = ''data-value missing''\<rparr>"
      by (simp add: tPredictionCell_spec_def)
  qed
  with a show ?thesis by blast
qed

lemma readyPrediction_batch1:
  assumes "1 \<le> i" and "i \<le> 31"
  shows "readyPrediction (batch1 cv pv n ready) i =
           (if ready then (if i = 1 then pv else JNull) else JUndefined)"
  by (simp add: readyPrediction_def batch1_reads [OF assms] truthy_def)

lemma tPrediction_text_13_1:
  "tPredictionCell_spec (JNum (Fin 13.1)) =
     \<lparr>textContent = ''13.10'', className = ''data-value predicted''\<rparr>"
  by (simp add: tPredictionCell_spec_def formatValue_spec_def number_text_defs)

theorem tPredictionCell_shows_stored_prediction_witness:
  "cyclesComplete sampleEngine (mon constructed) [batch1 (JNum (Fin 12.3)) (JNum (Fin 13.1)) 5 True]
   \<and> reconciles sampleEngine
       (runCycles sampleEngine (mon constructed) [batch1 (JNum (Fin 12.3)) (JNum (Fin 13.1)) 5 True])
       (batch1 (JNum (Fin 99)) (JNum (Fin 14.2)) 6 True)
   \<and> tPredictionCell (runCycles sampleEngine (mon constructed)
        ([batch1 (JNum (Fin 12.3)) (JNum (Fin 13.1)) 5 True]
           @ [batch1 (JNum (Fin 99)) (JNum (Fin 14.2)) 6 True])) 1
       = \<lparr>textContent = ''13.10'', className = ''data-value predicted''\<rparr>"
proof -
  let ?ds = "[batch1 (JNum (Fin 12.3)) (JNum (Fin 13.1)) 5 True]"
  let ?d = "batch1 (JNum (Fin 99)) (JNum (Fin 14.2)) 6 True"
  have c: "cyclesComplete sampleEngine (mon constructed) ?ds"
    and cv: "convertible (runCycles sampleEngine (mon constructed) ?ds)"
    using wellFormed_cyclesComplete [of ?ds "mon constructed" sampleEngine]
    by (simp_all add: wellFormed_batch1 convertible_constructed)
  have r: "reconciles sampleEngine (runCycles sampleEngine (mon constructed) ?ds) ?d"
    by (rule updateData_completes(1) [OF wellFormed_batch1 cv]) simp
  have i1: "(1::nat) \<le> 1" "(1::nat) \<le> 31" by simp_all
  note t = tPredictionCell_shows_stored_prediction [OF c r i1]
  have "mostRecent (lastPredictionValues (mon constructed) 1)
          (map (\<lambda>b. readyPrediction b 1) ?ds) = JNum (Fin 13.1)"
    by (simp add: readyPrediction_batch1 absent_def)
  with t have "tPredictionCell (runCycles sampleEngine (mon constructed) (?ds @ [?d])) 1
      = tPredictionCell_spec (JNum (Fin 13.1))"
    by simp
  then have "tPredictionCell (runCycles sampleEngine (mon constructed) (?ds @ [?d])) 1
      = \<lparr>textContent = ''13.10'', className = ''data-value predicted''\<rparr>"
    by (simp only: tPrediction_text_13_1)
  with c r show ?thesis by blast
qed

text \<open>
  C3 as stated fails where tick \<open>k - 1\<close> recorded no prediction but an earlier tick did.
  Tick 1 is ready and predicts 13.1 for feature 1; tick 2 is not ready, so it records
  nothing and the stored prediction stays; in tick 3 the t-time cell shows \<open>13.10\<close>, which
  is neither a value recorded during tick 2 nor the marker \<open>--\<close>.
\<close>

theorem tPredictionCell_stale_counterexample:
  "tPredictionCell (runCycles sampleEngine (mon constructed)
      ([batch1 (JNum (Fin 12.3)) (JNum (Fin 13.1)) 5 True,
        batch1 (JNum (Fin 12.4)) (JNum (Fin 14.2)) 6 False]
         @ [batch1 (JNum (Fin 12.5)) JNull 7 True])) 1
     = \<lparr>textContent = ''13.10'', className = ''data-value predicted''\<rparr>
   \<and> readyPrediction (batch1 (JNum (Fin 12.4)) (JNum (Fin 14.2)) 6 False) 1 = JUndefined
   \<and> lastPredictionValues (runCycles sampleEngine (mon constructed)
        [batch1 (JNum (Fin 12.3)) (JNum (Fin 13.1)) 5 True,
         batch1 (JNum (Fin 12.4)) (JNum (Fin 14.2)) 6 False]) 1
      = lastPredictionValues (runCycles sampleEngine (mon constructed)
        [batch1 (JNum (Fin 12.3)) (JNum (Fin 13.1)) 5 True]) 1"
proof -
  let ?b1 = "batch1 (JNum (Fin 12.3)) (JNum (Fin 13.1)) 5 True"
  let ?b2 = "batch1 (JNum (Fin 12.4)) (JNum (Fin 14.2)) 6 False"
  let ?b3 = "batch1 (JNum (Fin 12.5)) JNull 7 True"
  have c1: "cyclesComplete sampleEngine (mon constructed) [?b1]"
    using wellFormed_cyclesComplete [of "[?b1]" "mon constructed" sampleEngine]
    by (simp add: wellFormed_batch1 convertible_constructed)
  have c: "cyclesComplete sampleEngine (mon constructed) [?b1, ?b2]"
    and cv: "convertible (runCycles sampleEngine (mon constructed) [?b1, ?b2])"
    using wellFormed_cyclesComplete [of "[?b1, ?b2]" "mon constructed" sampleEngine]
    by (simp_all add: wellFormed_batch1 convertible_constructed)
  have r: "reconciles sampleEngine (runCycles sampleEngine (mon constructed) [?b1, ?b2]) ?b3"
    by (rule updateData_completes(1) [OF wellFormed_batch1 cv]) simp
  have i1: "(1::nat) \<le> 1" "(1::nat) \<le> 31" by simp_all
  note t = tPredictionCell_after_run [OF c r i1]
  have m: "mostRecent (lastPredictionValues (mon constructed) 1)
          (map (\<lambda>b. readyPrediction b 1) [?b1, ?b2]) = JNum (Fin 13.1)"
    by (simp add: readyPrediction_batch1 absent_def)
  have m1: "mostRecent (lastPredictionValues (mon constructed) 1)
          (map (\<lambda>b. readyPrediction b 1) [?b1]) = JNum (Fin 13.1)"
    by (simp add: readyPrediction_batch1 absent_def)
  have a: "tPredictionCell (runCycles sampleEngine (mon constructed) ([?b1, ?b2] @ [?b3])) 1
      = \<lparr>textContent = ''13.10'', className = ''data-value predicted''\<rparr>"
    using t m by (simp only: tPrediction_text_13_1)
  have b: "readyPrediction ?b2 1 = JUndefined"
    by (simp add: readyPrediction_batch1)
  have d: "lastPredictionValues (runCycles sampleEngine (mon constructed) [?b1, ?b2]) 1
      = lastPredictionValues (runCycles sampleEngine (mon constructed) [?b1]) 1"
    using runCycles_predictions [OF c i1] runCycles_predictions [OF c1 i1] m m1
    by (simp only:)
  from a b d show ?thesis by blast
qed

section \<open>The readiness gate\<close>

lemma not_ready_keeps_predictions:
  assumes "\<not> truthy (bufferReadyOf dat)"
  shows "lastPredictionValues (snd (updateData rt st dat)) = lastPredictionValues st"
proof
  fix j
  show "lastPredictionValues (snd (updateData rt st dat)) j = lastPredictionValues st j"
    using updateData_stored [of rt st dat j] assms by blast
qed

lemma not_ready_collecting:
  assumes "\<not> truthy (bufferReadyOf dat)" and "reconciles rt st dat"
  shows "\<forall>i\<in>{1..31}. predictionCell (snd (updateData rt st dat)) i =
           \<lparr>textContent = collectingText, className = ''data-value collecting''\<rparr>"
proof
  fix i :: nat
  assume "i \<in> {1..31}"
  then have i: "1 \<le> i" "i \<le> 31" by simp_all
  show "predictionCell (snd (updateData rt st dat)) i =
           \<lparr>textContent = collectingText, className = ''data-value collecting''\<rparr>"
    using updateData_cells(4) [OF assms(2) i] assms(1)
    by (simp add: predictionCell_spec_def)
qed

lemma bufferReadyOf_truthy:
  "truthy (bufferReadyOf dat) \<longleftrightarrow> truthy (valueOr (getProp dat ''buffer_ready''))"
  by (simp add: bufferReadyOf_def js_or_def truthy_def)

text \<open>
  C4. In a cycle whose batch carries \<open>buffer_ready = false\<close> (or any falsy value), no stored
  prediction changes, whatever the outcome of the cycle, and if the cycle reconciles its
  batch all 31 next-step cells show the collecting marker. A stored prediction changes
  only in a cycle whose \<open>buffer_ready\<close> is truthy and whose batch has a prediction value
  for that feature that is not absent, and then to that value.
\<close>

theorem buffer_ready_gates_predictions:
  "(\<not> truthy (valueOr (getProp dat ''buffer_ready'')) \<longrightarrow>
      lastPredictionValues (snd (updateData rt st dat)) = lastPredictionValues st)
   \<and> (\<not> truthy (valueOr (getProp dat ''buffer_ready'')) \<and> reconciles rt st dat \<longrightarrow>
      (\<forall>i\<in>{1..31}. predictionCell (snd (updateData rt st dat)) i =
         \<lparr>textContent = collectingText, className = ''data-value collecting''\<rparr>))
   \<and> (lastPredictionValues (snd (updateData rt st dat)) j \<noteq> lastPredictionValues st j \<longrightarrow>
      truthy (valueOr (getProp dat ''buffer_ready''))
      \<and> \<not> absent (predictionValueOf dat j)
      \<and> lastPredictionValues (snd (updateData rt st dat)) j = predictionValueOf dat j)"
  using not_ready_keeps_predictions [of dat rt st] not_ready_collecting [of dat rt st]
    updateData_stored [of rt st dat j]
  unfolding bufferReadyOf_truthy
  by blast

theorem buffer_ready_gates_predictions_witness:
  "\<not> truthy (valueOr (getProp (batch1 (JNum (Fin 12.3)) (JNum (Fin 13.1)) 1 False) ''buffer_ready''))
   \<and> reconciles sampleEngine (mon constructed) (batch1 (JNum (Fin 12.3)) (JNum (Fin 13.1)) 1 False)
   \<and> lastPredictionValues (snd (updateData sampleEngine (mon constructed)
        (batch1 (JNum (Fin 12.3)) (JNum (Fin 13.1)) 1 False))) 1 = JUndefined
   \<and> predictionCell (snd (updateData sampleEngine (mon constructed)
        (batch1 (JNum (Fin 12.3)) (JNum (Fin 13.1)) 1 False))) 1
       = \<lparr>textContent = collectingText, className = ''data-value collecting''\<rparr>
   \<and> predictionCell (snd (updateData sampleEngine (mon constructed)
        (batch1 (JNum (Fin 12.3)) (JNum (Fin 13.1)) 1 False))) 31
       = \<lparr>textContent = collectingText, className = ''data-value collecting''\<rparr>"
proof -
  let ?d = "batch1 (JNum (Fin 12.3)) (JNum (Fin 13.1)) 1 False"
  have n: "\<not> truthy (valueOr (getProp ?d ''buffer_ready''))"
    by (simp add: batch1_def batch_def getProp_def valueOr_def truthy_def)
  have r: "reconciles sampleEngine (mon constructed) ?d"
    by (rule updateData_completes) (simp_all add: wellFormed_batch1 convertible_constructed)
  note t = buffer_ready_gates_predictions [of ?d sampleEngine "mon constructed" 1]
  from t n have "lastPredictionValues (snd (updateData sampleEngine (mon constructed) ?d))
      = lastPredictionValues (mon constructed)"
    by blast
  then have a: "lastPredictionValues (snd (updateData sampleEngine (mon constructed) ?d)) 1
      = JUndefined"
    by simp
  from t n r have all: "\<forall>i\<in>{1..31}. predictionCell (snd (updateData sampleEngine (mon constructed) ?d)) i =
         \<lparr>textContent = collectingText, className = ''data-value collecting''\<rparr>"
    by blast
  have "(1::nat) \<in> {1..31}" "(31::nat) \<in> {1..31}" by simp_all
  with all have b: "predictionCell (snd (updateData sampleEngine (mon constructed) ?d)) 1 =
         \<lparr>textContent = collectingText, className = ''data-value collecting''\<rparr>"
    and c: "predictionCell (snd (updateData sampleEngine (mon constructed) ?d)) 31 =
         \<lparr>textContent = collectingText, className = ''data-value collecting''\<rparr>"
    by blast+
  from n r a b c show ?thesis by blast
qed


section \<open>Rendering within one cycle\<close>

text \<open>
  C7, as amended. In a cycle that reconciles its batch, every feature's row is the row that
  its call of \<open>updateFeatureDisplayWithoutSaving\<close> produces on the state as the previous
  cycle left it; this holds for the first loop over the features in any order, so no row
  depends on what the loop did for another feature. \<open>lastValues\<close> is not advanced during
  the first loop at all. \<open>lastPredictionValues\<close> is: each feature's entry is advanced at the
  end of that feature's own call, after its t-time cell has been written and before the
  next feature is rendered.
\<close>

theorem rows_rendered_from_prior_state:
  assumes "reconciles rt st dat" and "1 \<le> i" and "i \<le> 31"
  shows "fst (displayRow rt st (featuresOf dat) (bufferReadyOf dat) i) = None
       \<and> rowOf (snd (updateData rt st dat)) i =
           rowOf (snd (displayRow rt st (featuresOf dat) (bufferReadyOf dat) i)) i
       \<and> (fst (renderPass rt F br fs (st, c)) = None \<and> distinct (map fid fs) \<and> f \<in> set fs \<longrightarrow>
            rowOf (fst (snd (renderPass rt F br fs (st, c)))) (fid f) =
              rowOf (snd (displayRow rt st F br (fid f))) (fid f))
       \<and> lastValues (fst (snd (renderPass rt F br fs (st, c)))) = lastValues st
       \<and> lastPredictionValues (snd (updateData rt st dat)) i =
           (if \<not> absent (predictionValueOf dat i) \<and> truthy (bufferReadyOf dat)
            then predictionValueOf dat i else lastPredictionValues st i)"
  using updateData_row(1,2) [OF assms] renderPass_row [of rt F br fs st c f]
    sameOutside_lastValues [OF renderPass_sameOutside [of fs st rt F br c]]
    updateData_cells(5) [OF assms]
  by blast

theorem rows_rendered_from_prior_state_witness:
  "reconciles sampleEngine (mon constructed) (batch1 (JNum (Fin 12.3)) (JNum (Fin 13.1)) 5 True)
   \<and> rowOf (snd (updateData sampleEngine (mon constructed)
        (batch1 (JNum (Fin 12.3)) (JNum (Fin 13.1)) 5 True))) 31 =
       rowOf (snd (displayRow sampleEngine (mon constructed)
        (featuresOf (batch1 (JNum (Fin 12.3)) (JNum (Fin 13.1)) 5 True))
        (bufferReadyOf (batch1 (JNum (Fin 12.3)) (JNum (Fin 13.1)) 5 True)) 31)) 31
   \<and> lastPredictionValues (snd (updateData sampleEngine (mon constructed)
        (batch1 (JNum (Fin 12.3)) (JNum (Fin 13.1)) 5 True))) 1 = JNum (Fin 13.1)"
proof -
  let ?d = "batch1 (JNum (Fin 12.3)) (JNum (Fin 13.1)) 5 True"
  have r: "reconciles sampleEngine (mon constructed) ?d"
    by (rule updateData_completes) (simp_all add: wellFormed_batch1 convertible_constructed)
  have i31: "(1::nat) \<le> 31" "(31::nat) \<le> 31" and i1: "(1::nat) \<le> 1" "(1::nat) \<le> 31"
    by simp_all
  have a: "rowOf (snd (updateData sampleEngine (mon constructed) ?d)) 31 =
       rowOf (snd (displayRow sampleEngine (mon constructed) (featuresOf ?d) (bufferReadyOf ?d) 31)) 31"
    using rows_rendered_from_prior_state [OF r i31] by blast
  have "lastPredictionValues (snd (updateData sampleEngine (mon constructed) ?d)) 1 =
           (if \<not> absent (predictionValueOf ?d 1) \<and> truthy (bufferReadyOf ?d)
            then predictionValueOf ?d 1 else lastPredictionValues (mon constructed) 1)"
    using rows_rendered_from_prior_state [OF r i1] by blast
  also have "\<dots> = JNum (Fin 13.1)"
    by (simp add: batch1_reads absent_def truthy_def)
  finally have b: "lastPredictionValues (snd (updateData sampleEngine (mon constructed) ?d)) 1
      = JNum (Fin 13.1)" .
  from r a b show ?thesis by blast
qed

text \<open>
  C7 as stated fails in its clause that all features are rendered before any feature's
  persistent state is advanced. With a ready batch that predicts 13.1 for feature 1, the
  state in which the first loop goes on to render feature 2 (the state left by the loop's
  body for the first catalogue entry) already holds 13.1 as the stored prediction of
  feature 1, which the state at the start of the cycle did not.
\<close>

theorem prediction_advanced_during_render_counterexample:
  "fid (hd FEATURE_CONFIG) = 1
   \<and> lastPredictionValues (mon constructed) 1 = JUndefined
   \<and> lastPredictionValues (fst (snd (renderFeature sampleEngine
        (featuresOf (batch1 (JNum (Fin 12.3)) (JNum (Fin 13.1)) 5 True))
        (bufferReadyOf (batch1 (JNum (Fin 12.3)) (JNum (Fin 13.1)) 5 True))
        (hd FEATURE_CONFIG)
        (mon constructed, \<lparr>validCount = 0, missingCount = 0, predictedCount = 0\<rparr>)))) 1
      = JNum (Fin 13.1)
   \<and> renderPass sampleEngine
        (featuresOf (batch1 (JNum (Fin 12.3)) (JNum (Fin 13.1)) 5 True))
        (bufferReadyOf (batch1 (JNum (Fin 12.3)) (JNum (Fin 13.1)) 5 True))
        FEATURE_CONFIG
        (mon constructed, \<lparr>validCount = 0, missingCount = 0, predictedCount = 0\<rparr>)
      = renderPass sampleEngine
        (featuresOf (batch1 (JNum (Fin 12.3)) (JNum (Fin 13.1)) 5 True))
        (bufferReadyOf (batch1 (JNum (Fin 12.3)) (JNum (Fin 13.1)) 5 True))
        (tl FEATURE_CONFIG)
        (snd (renderFeature sampleEngine
          (featuresOf (batch1 (JNum (Fin 12.3)) (JNum (Fin 13.1)) 5 True))
          (bufferReadyOf (batch1 (JNum (Fin 12.3)) (JNum (Fin 13.1)) 5 True))
          (hd FEATURE_CONFIG)
          (mon constructed, \<lparr>validCount = 0, missingCount = 0, predictedCount = 0\<rparr>)))"
proof -
  let ?d = "batch1 (JNum (Fin 12.3)) (JNum (Fin 13.1)) 5 True"
  let ?c = "\<lparr>validCount = 0, missingCount = 0, predictedCount = 0\<rparr>"
  let ?f = "hd FEATURE_CONFIG"
  have h: "fid ?f = 1" by (simp add: FEATURE_CONFIG_def)
  have i1: "(1::nat) \<le> 1" "(1::nat) \<le> 31" by simp_all
  note rd = batch1_reads [OF i1, of "JNum (Fin 12.3)" "JNum (Fin 13.1)" 5 True]
  have ok: "fst (displayRow sampleEngine (mon constructed) (featuresOf ?d) (bufferReadyOf ?d) 1)
      = None"
    unfolding displayRow_def ufd_fst displayRow_args
    by (rule ucv_fst) (simp_all add: batch1_reads)
  then obtain st1 where d: "displayRow sampleEngine (mon constructed) (featuresOf ?d)
      (bufferReadyOf ?d) 1 = (None, st1)"
    by (cases "displayRow sampleEngine (mon constructed) (featuresOf ?d) (bufferReadyOf ?d) 1") simp
  have "lastPredictionValues st1 1 =
      (if \<not> absent (predictionValueOf ?d 1) \<and> truthy (bufferReadyOf ?d)
       then predictionValueOf ?d 1 else lastPredictionValues (mon constructed) 1)"
    using ufd_success(5) [OF ok [unfolded displayRow_def], folded displayRow_def,
        unfolded displayRow_args] d
    by simp
  then have lp: "lastPredictionValues st1 1 = JNum (Fin 13.1)"
    by (simp add: batch1_reads absent_def truthy_def)
  have rf: "renderFeature sampleEngine (featuresOf ?d) (bufferReadyOf ?d) ?f (mon constructed, ?c)
      = (None, st1, count (statusOf (field (entryAt (featuresOf ?d) 1) ''current_value'')) ?c)"
    using rd(3) d by (simp add: renderFeature_eq h)
  have a: "lastPredictionValues (fst (snd (renderFeature sampleEngine (featuresOf ?d)
      (bufferReadyOf ?d) ?f (mon constructed, ?c)))) 1 = JNum (Fin 13.1)"
    by (simp only: rf fst_conv snd_conv lp)
  have ne: "FEATURE_CONFIG = ?f # tl FEATURE_CONFIG"
    by (simp add: FEATURE_CONFIG_def)
  have b: "renderPass sampleEngine (featuresOf ?d) (bufferReadyOf ?d) FEATURE_CONFIG
        (mon constructed, ?c)
      = renderPass sampleEngine (featuresOf ?d) (bufferReadyOf ?d) (tl FEATURE_CONFIG)
        (snd (renderFeature sampleEngine (featuresOf ?d) (bufferReadyOf ?d) ?f
          (mon constructed, ?c)))"
    by (subst ne) (simp only: renderPass.simps rf snd_conv prod.case option.case)
  have u: "lastPredictionValues (mon constructed) 1 = JUndefined" by simp
  from h u a b show ?thesis by blast
qed


section \<open>Batches of the wrong length\<close>










section \<open>The fallback\<close>







section \<open>Settled requests\<close>

lemma status_frame [simp]:
  "lastValues (hideLoading st) = lastValues st"
  "lastValues (updateStatus s st) = lastValues st"
  "lastPredictionValues (hideLoading st) = lastPredictionValues st"
  "lastPredictionValues (updateStatus s st) = lastPredictionValues st"
  "statusDot (hideLoading st) = statusDot st"
  "statusDot (updateStatus s st) = ''status-dot '' @ s"
  "valueCell (hideLoading st) = valueCell st"
  "valueCell (updateStatus s st) = valueCell st"
  by (simp_all add: hideLoading_def updateStatus_def)

lemma updateData_pair: "updateData rt st dat = (fst (updateData rt st dat), snd (updateData rt st dat))"
  by simp

text \<open>A reply whose cycle returns ends as connected; one whose cycle throws starts the fallback.\<close>

lemma fetchData_settled_ok:
  assumes "fst (updateData rt st dat) = None"
  shows "fetchData_settled rt rnd (Reply True (Some dat)) st =
           (None, hideLoading (updateStatus ''connected'' (snd (updateData rt st dat))))"
  using assms
  by (subst fetchData_settled_def, subst fetchData_try_def, subst updateData_pair) simp








section \<open>Stopping\<close>

lemma stopMonitoring_eq: "stopMonitoring st = rescheduled False False st"
  by (cases "updateInterval st") (simp_all add: stopMonitoring_def rescheduled_def Let_def)

lemma rescheduled_reads [simp]:
  "lastValues (rescheduled a b st) = lastValues st"
  "lastPredictionValues (rescheduled a b st) = lastPredictionValues st"
  "tPredictionCell (rescheduled a b st) = tPredictionCell st"
  "valueCell (rescheduled a b st) = valueCell st"
  "changeCell (rescheduled a b st) = changeCell st"
  "predictionCell (rescheduled a b st) = predictionCell st"
  "paused (rescheduled a b st) = paused st"
  "isRunning (rescheduled a b st) = a"
  "updateInterval (rescheduled a b st) = b"
  by (simp_all add: rescheduled_def)

lemma rescheduled_writes:
  "rescheduled a b (st\<lparr>changeCell := c\<rparr>) = (rescheduled a b st)\<lparr>changeCell := c\<rparr>"
  "rescheduled a b (st\<lparr>tPredictionCell := t, valueCell := v\<rparr>)
     = (rescheduled a b st)\<lparr>tPredictionCell := t, valueCell := v\<rparr>"
  "rescheduled a b (st\<lparr>predictionCell := p, lastPredictionValues := q\<rparr>)
     = (rescheduled a b st)\<lparr>predictionCell := p, lastPredictionValues := q\<rparr>"
  "rescheduled a b (st\<lparr>lastValues := lv\<rparr>) = (rescheduled a b st)\<lparr>lastValues := lv\<rparr>"
  "rescheduled a b (hideLoading st) = hideLoading (rescheduled a b st)"
  "rescheduled a b (updateStatus s st) = updateStatus s (rescheduled a b st)"
  "rescheduled a b (afterLoops dat c' st) = afterLoops dat c' (rescheduled a b st)"
  by (simp_all add: rescheduled_def hideLoading_def updateStatus_def afterLoops_def
      updateStepInfo_def updateTBMStatusFromBackend_def updateStats_def)

text \<open>
  No method on the path of a settled request reads \<open>isRunning\<close> or \<open>updateInterval\<close>, and
  none writes them: each gives the same outcome on a rescheduled state, and the
  rescheduled state of its result.
\<close>

lemma ucv_rescheduled:
  "updateChangeValueWithoutSaving rt (rescheduled a b st) i cv =
     (fst (updateChangeValueWithoutSaving rt st i cv),
      rescheduled a b (snd (updateChangeValueWithoutSaving rt st i cv)))"
  by (simp add: updateChangeValueWithoutSaving_def js_minus_def Let_def formatValue_spec_eq
      rescheduled_writes)

lemma ufd_rescheduled:
  "updateFeatureDisplayWithoutSaving rt (rescheduled a b st) i cv s src pv br =
     (fst (updateFeatureDisplayWithoutSaving rt st i cv s src pv br),
      rescheduled a b (snd (updateFeatureDisplayWithoutSaving rt st i cv s src pv br)))"
proof -
  let ?st2 = "st\<lparr>tPredictionCell := (tPredictionCell st)
                    (i := tPredictionCell_spec (lastPredictionValues st i)),
                  valueCell := (valueCell st)(i := valueCell_spec cv s src)\<rparr>"
  obtain e st3 where u: "updateChangeValueWithoutSaving rt ?st2 i cv = (e, st3)"
    by (cases "updateChangeValueWithoutSaving rt ?st2 i cv")
  have r: "updateChangeValueWithoutSaving rt (rescheduled a b ?st2) i cv
      = (e, rescheduled a b st3)"
    by (simp add: ucv_rescheduled u)
  show ?thesis
    by (cases e)
       (simp_all add: ufd_eq u rescheduled_writes(2,3) [symmetric] r)
qed

lemma renderFeature_rescheduled:
  "renderFeature rt F br f (rescheduled a b st, c) =
     (fst (renderFeature rt F br f (st, c)),
      rescheduled a b (fst (snd (renderFeature rt F br f (st, c)))),
      snd (snd (renderFeature rt F br f (st, c))))"
  by (cases "displayRow rt st F br (fid f)")
     (auto simp: renderFeature_eq displayRow_def ufd_rescheduled split: option.splits)

lemma renderPass_rescheduled:
  "renderPass rt F br fs (rescheduled a b st, c) =
     (fst (renderPass rt F br fs (st, c)),
      rescheduled a b (fst (snd (renderPass rt F br fs (st, c)))),
      snd (snd (renderPass rt F br fs (st, c))))"
proof (induction fs arbitrary: st c)
  case Nil
  show ?case by simp
next
  case (Cons g gs)
  obtain e st1 c1 where rf: "renderFeature rt F br g (st, c) = (e, st1, c1)"
    by (metis prod_cases3)
  show ?case
    by (cases e) (simp_all add: renderFeature_rescheduled rf Cons.IH)
qed

lemma saveFeature_rescheduled:
  "saveFeature F f (rescheduled a b st) =
     (fst (saveFeature F f st), rescheduled a b (snd (saveFeature F f st)))"
  by (simp add: saveFeature_eq rescheduled_writes)

lemma savePass_rescheduled:
  "savePass F fs (rescheduled a b st) =
     (fst (savePass F fs st), rescheduled a b (snd (savePass F fs st)))"
proof (induction fs arbitrary: st)
  case Nil
  show ?case by simp
next
  case (Cons g gs)
  obtain e st1 where sf: "saveFeature F g st = (e, st1)"
    by (cases "saveFeature F g st")
  show ?case
    by (cases e) (simp_all add: saveFeature_rescheduled sf Cons.IH)
qed

lemma updateData_rescheduled:
  "updateData rt (rescheduled a b st) dat =
     (fst (updateData rt st dat), rescheduled a b (snd (updateData rt st dat)))"
proof (cases "truthy dat \<and> truthy (featuresOf dat)")
  case False
  then have "\<not> truthy dat \<or> \<not> truthy (featuresOf dat)" by simp
  then show ?thesis by (simp add: updateData_guard)
next
  case True
  then have t: "truthy dat" "truthy (featuresOf dat)" by simp_all
  obtain e st1 c where rp: "renderPass rt (featuresOf dat) (bufferReadyOf dat) FEATURE_CONFIG
      (st, \<lparr>validCount = 0, missingCount = 0, predictedCount = 0\<rparr>) = (e, st1, c)"
    by (metis prod_cases3)
  show ?thesis
    by (cases e)
       (simp_all add: updateData_run [OF t] renderPass_rescheduled rp rescheduled_writes
          cong: if_cong)
qed

lemma fetchData_settled_rescheduled:
  "fetchData_settled rt rnd resp (rescheduled a b st) =
     (fst (fetchData_settled rt rnd resp st),
      rescheduled a b (snd (fetchData_settled rt rnd resp st)))"
proof -
  have tr: "fetchData_try rt resp (rescheduled a b st) =
      (fst (fetchData_try rt resp st), rescheduled a b (snd (fetchData_try rt resp st)))"
  proof (cases resp)
    case NetworkDown
    then show ?thesis by (simp add: fetchData_try_def)
  next
    case (Reply ok body)
    show ?thesis
    proof (cases body)
      case None
      with Reply show ?thesis by (simp add: fetchData_try_def)
    next
      case (Some dat)
      obtain e st1 where u: "updateData rt st dat = (e, st1)"
        by (cases "updateData rt st dat")
      with Reply Some show ?thesis
        by (cases e) (simp_all add: fetchData_try_def updateData_rescheduled rescheduled_writes)
    qed
  qed
  obtain e st1 where t: "fetchData_try rt resp st = (e, st1)"
    by (cases "fetchData_try rt resp st")
  show ?thesis
    by (cases e)
       (simp_all add: fetchData_settled_def tr t updateData_rescheduled
          rescheduled_writes [symmetric])
qed

text \<open>
  C8, as amended. \<open>stopMonitoring\<close> clears \<open>isRunning\<close> and cancels the timer, so no timer
  tick fetches afterwards, and it changes nothing else. It does not mark or cancel a
  request that is in flight: when that request settles after the stop, \<open>fetchData\<close> applies
  it exactly as it would have before the stop, with the same state mutation and the same
  rendering; stopping and settling commute.
\<close>

theorem stop_does_not_discard_settling:
  "dispatch rt (dispatch rt w BeforeUnload) (FetchSettled resp rnd) =
     dispatch rt (dispatch rt w (FetchSettled resp rnd)) BeforeUnload
   \<and> dispatch rt (dispatch rt w BeforeUnload) TimerTick = dispatch rt w BeforeUnload
   \<and> mon (dispatch rt w BeforeUnload) = rescheduled False False (mon w)
   \<and> inFlight (dispatch rt w BeforeUnload) = inFlight w"
  by (simp add: dispatch_def stopMonitoring_eq fetchData_settled_rescheduled)

text \<open>
  C8 as stated fails. The monitor is constructed (its first request is in flight), the page
  unloads, and then the request settles with a batch: the settled batch still sets the
  last value and the value cell of feature 1 in the stopped monitor.
\<close>

theorem settled_after_stop_counterexample:
  "\<not> isRunning (mon (runEvents sampleEngine constructed [BeforeUnload]))
   \<and> lastValues (mon (runEvents sampleEngine constructed [BeforeUnload])) 1 = JUndefined
   \<and> lastValues (mon (runEvents sampleEngine constructed
        [BeforeUnload,
         FetchSettled (Reply True (Some (batch1 (JNum (Fin 12.3)) JNull 7 False))) (\<lambda>_. 0)])) 1
       = JNum (Fin 12.3)
   \<and> valueCell (mon (runEvents sampleEngine constructed
        [BeforeUnload,
         FetchSettled (Reply True (Some (batch1 (JNum (Fin 12.3)) JNull 7 False))) (\<lambda>_. 0)])) 1
       = \<lparr>textContent = ''12.30'', className = ''data-value api-data''\<rparr>"
proof -
  let ?d = "batch1 (JNum (Fin 12.3)) JNull 7 False"
  let ?st = "rescheduled False False (mon constructed)"
  have i1: "(1::nat) \<le> 1" "(1::nat) \<le> 31" by simp_all
  have stop: "runEvents sampleEngine constructed [BeforeUnload]
      = \<lparr>mon = ?st, inFlight = 1\<rparr>"
    by (simp add: runEvents_def dispatch_def stopMonitoring_eq)
  have cv: "convertible ?st" by (simp add: convertible_def)
  have r: "reconciles sampleEngine ?st ?d"
    by (rule updateData_completes(1) [OF wellFormed_batch1 cv]) simp
  then have ok: "fst (updateData sampleEngine ?st ?d) = None"
    by (simp add: reconciles_def)
  have run: "mon (runEvents sampleEngine constructed
        [BeforeUnload, FetchSettled (Reply True (Some ?d)) (\<lambda>_. 0)])
      = hideLoading (updateStatus ''connected'' (snd (updateData sampleEngine ?st ?d)))"
    by (simp add: runEvents_def dispatch_def stopMonitoring_eq fetchData_settled_ok [OF ok])
  have a: "\<not> isRunning (mon (runEvents sampleEngine constructed [BeforeUnload]))"
    by (simp add: stop)
  have b: "lastValues (mon (runEvents sampleEngine constructed [BeforeUnload])) 1 = JUndefined"
    by (simp add: stop)
  have "lastValues (snd (updateData sampleEngine ?st ?d)) 1 = JNum (Fin 12.3)"
    using updateData_lastValues [OF ok, of 1] by (simp add: batch1_reads absent_def)
  then have c: "lastValues (mon (runEvents sampleEngine constructed
        [BeforeUnload, FetchSettled (Reply True (Some ?d)) (\<lambda>_. 0)])) 1 = JNum (Fin 12.3)"
    by (simp only: run status_frame)
  have "valueCell (snd (updateData sampleEngine ?st ?d)) 1 =
      valueCell_spec (currentValueOf ?d 1) (statusOf (currentValueOf ?d 1)) (currentSourceOf ?d 1)"
    by (rule updateData_cells(2) [OF r i1])
  also have "\<dots> = \<lparr>textContent = ''12.30'', className = ''data-value api-data''\<rparr>"
    by (simp add: batch1_batchN batchN_reads valueCell_spec_def formatValue_spec_def
        number_text_defs del: batchN_simps(4))
  finally have d: "valueCell (mon (runEvents sampleEngine constructed
        [BeforeUnload, FetchSettled (Reply True (Some ?d)) (\<lambda>_. 0)])) 1
      = \<lparr>textContent = ''12.30'', className = ''data-value api-data''\<rparr>"
    by (simp only: run status_frame)
  from a b c d show ?thesis by blast
qed

section \<open>Requests in flight\<close>

text \<open>
  C9, as amended. There is no in-flight guard. A timer tick is suppressed only while the
  monitor is paused (and no tick comes once the timer is cancelled); otherwise every timer
  tick and every manual refresh issues a further request, whatever the number already in
  flight, so several fetch-and-reconcile cycles can be outstanding at once. Issuing a
  request changes no reconciliation state.
\<close>

theorem requests_are_not_suppressed:
  "inFlight (dispatch rt w RefreshClick) = inFlight w + 1
   \<and> (updateInterval (mon w) \<and> \<not> paused (mon w) \<longrightarrow>
        inFlight (dispatch rt w TimerTick) = inFlight w + 1)
   \<and> (paused (mon w) \<or> \<not> updateInterval (mon w) \<longrightarrow> dispatch rt w TimerTick = w)
   \<and> lastValues (mon (dispatch rt w RefreshClick)) = lastValues (mon w)
   \<and> lastPredictionValues (mon (dispatch rt w RefreshClick)) = lastPredictionValues (mon w)
   \<and> mon (dispatch rt w TimerTick) = mon w"
  by (simp add: dispatch_def refreshData_def fetchData_issue_def showLoading_def)

theorem requests_are_not_suppressed_witness:
  "updateInterval (mon constructed) \<and> \<not> paused (mon constructed)
   \<and> inFlight constructed = 1
   \<and> inFlight (dispatch sampleEngine constructed TimerTick) = 2
   \<and> paused (mon (dispatch sampleEngine constructed PauseClick))
   \<and> dispatch sampleEngine (dispatch sampleEngine constructed PauseClick) TimerTick
       = dispatch sampleEngine constructed PauseClick"
proof -
  have a: "updateInterval (mon constructed)" "\<not> paused (mon constructed)"
    "inFlight constructed = 1"
    by simp_all
  have p: "paused (mon (dispatch sampleEngine constructed PauseClick))"
    by (simp add: dispatch_def togglePause_def)
  from requests_are_not_suppressed [of sampleEngine constructed] a
  have b: "inFlight (dispatch sampleEngine constructed TimerTick) = 2"
    by simp
  from requests_are_not_suppressed [of sampleEngine "dispatch sampleEngine constructed PauseClick"] p
  have c: "dispatch sampleEngine (dispatch sampleEngine constructed PauseClick) TimerTick
       = dispatch sampleEngine constructed PauseClick"
    by blast
  from a p b c show ?thesis by blast
qed

text \<open>
  C9 as stated fails. With the first request of the constructed monitor still in flight, a
  manual refresh is not dropped: it issues a second request, and so does a timer tick.
\<close>

theorem second_request_issued_counterexample:
  "inFlight constructed = 1
   \<and> inFlight (runEvents sampleEngine constructed [RefreshClick]) = 2
   \<and> inFlight (runEvents sampleEngine constructed [RefreshClick, TimerTick]) = 3"
  by (simp add: runEvents_def dispatch_def refreshData_def fetchData_issue_def showLoading_def)


end
